theory Spec2Isabelle
  imports Main "HOL-Library.AList"
begin

section \<open>Conventions\<close>

text \<open>
  The repository holds four variants of one hourly log mover:
  \<^item> \<^verbatim>\<open>cos_to_aliyun_filesize_limit.py\<close>: sequential, buffers flushed synchronously (names
    prefixed \<open>fl_\<close> below);
  \<^item> \<^verbatim>\<open>cos_aliyun_fileze_limit_sync.py\<close>: download pool and asynchronous upload pool (prefix
    \<open>sync_\<close>);
  \<^item> \<^verbatim>\<open>online_to_aliyun.py\<close>: read everything, group, truncate, upload (prefix \<open>o1_\<close>);
  \<^item> \<^verbatim>\<open>online_to_aliyun2.py\<close>: streaming version of the former (prefix \<open>o2_\<close>).

  A Python \<open>str\<close> is modelled by its UTF-8 encoding, a \<open>string\<close> of bytes, so that
  \<open>len(s.encode('utf-8'))\<close> is \<open>length s\<close>. Case mapping and whitespace stripping are
  modelled on the ASCII range; bytes above it are left alone. For a field that holds
  white space or cased letters outside ASCII (U+00A0, U+017F, ...) \<open>strip\<close>, \<open>upper\<close> and
  \<open>lower\<close> below are not Python's; the theorems use them only through the results
  \<open>android\<close>, \<open>ios\<close>, \<open>UK\<close> and \<open>GB\<close> or leave them folded.
  The gzip stream is modelled by the chunks written into it.
\<close>

datatype py_error = JSONDecodeError | AttributeError | ValueError | TypeError

definition newline :: string where
  "newline = [CHR 0x0A]"

definition ascii_lowercase :: string where
  "ascii_lowercase = ''abcdefghijklmnopqrstuvwxyz''"

definition ascii_uppercase :: string where
  "ascii_uppercase = ''ABCDEFGHIJKLMNOPQRSTUVWXYZ''"

definition upper_char :: "char \<Rightarrow> char" where
  "upper_char c = (case map_of (zip ascii_lowercase ascii_uppercase) c of Some u \<Rightarrow> u | None \<Rightarrow> c)"

definition lower_char :: "char \<Rightarrow> char" where
  "lower_char c = (case map_of (zip ascii_uppercase ascii_lowercase) c of Some l \<Rightarrow> l | None \<Rightarrow> c)"

definition upper :: "string \<Rightarrow> string" where
  "upper s = map upper_char s"

definition lower :: "string \<Rightarrow> string" where
  "lower s = map lower_char s"

definition whitespace :: string where
  "whitespace = [CHR 0x09, CHR 0x0A, CHR 0x0B, CHR 0x0C, CHR 0x0D,
                 CHR 0x1C, CHR 0x1D, CHR 0x1E, CHR 0x1F, CHR 0x20]"

definition strip :: "string \<Rightarrow> string" where
  "strip s = rev (dropWhile (\<lambda>c. c \<in> set whitespace) (rev (dropWhile (\<lambda>c. c \<in> set whitespace) s)))"

fun join :: "string \<Rightarrow> string list \<Rightarrow> string" where
  "join sep [] = []"
| "join sep [x] = x"
| "join sep (x # y # ys) = x @ sep @ join sep (y # ys)"

section \<open>The destination store\<close>

text \<open>
  \<open>put_object\<close> belongs to the collaborator. A run is given the store's answers as a function
  \<open>oss\<close>: \<open>oss n\<close> tells whether the \<open>n\<close>-th call of the run returns (\<open>True\<close>) or raises.
  The log keeps every call, in order, with its key, its body and its outcome.
\<close>

datatype put_call = Put (put_key: string) (put_body: "string list") (put_ok: bool)

definition put_object :: "(nat \<Rightarrow> bool) \<Rightarrow> string \<Rightarrow> string list \<Rightarrow> put_call list \<Rightarrow> bool \<times> put_call list" where
  "put_object oss key body log = (oss (length log), log @ [Put key body (oss (length log))])"

section \<open>BufferedUploader\<close>

text \<open>
  The class of both \<^verbatim>\<open>cos_*\<close> files. \<open>gz_data\<close> holds what was written through
  \<open>gz_file\<close>, \<open>gz_closed\<close> whether \<open>gz_file.close()\<close> has run, \<open>buffer_closed\<close> whether
  \<open>buffer.close()\<close> has (only the sequential file closes it).
\<close>

record uploader =
  platform :: string
  geo3 :: string
  limit_bytes :: "nat option"
  date_part :: string
  hour_part :: string
  gz_data :: "string list"
  gz_closed :: bool
  buffer_closed :: bool
  current_size :: nat
  line_count :: nat
  uploaded :: bool

definition BufferedUploader :: "string \<Rightarrow> string \<Rightarrow> nat option \<Rightarrow> string \<Rightarrow> string \<Rightarrow> uploader" where
  "BufferedUploader p g limit_mb d h =
     \<lparr> platform = p, geo3 = g,
       limit_bytes = (case limit_mb of None \<Rightarrow> None
                      | Some m \<Rightarrow> if m = 0 then None else Some (m * 1024 * 1024)),
       date_part = d, hour_part = h,
       gz_data = [], gz_closed = False, buffer_closed = False,
       current_size = 0, line_count = 0, uploaded = False \<rparr>"

text \<open>\<^verbatim>\<open>self.limit_bytes and self.current_size + added_size > self.limit_bytes\<close>\<close>

definition over_limit :: "nat option \<Rightarrow> nat \<Rightarrow> bool" where
  "over_limit limit n = (case limit of None \<Rightarrow> False | Some b \<Rightarrow> b \<noteq> 0 \<and> n > b)"

definition object_key :: "uploader \<Rightarrow> string" where
  "object_key u = ''track/'' @ date_part u @ ''/'' @ hour_part u @ ''/''
                  @ platform u @ ''.'' @ geo3 u @ ''.log.gz''"

subsection \<open>Sequential file: \<^verbatim>\<open>_flush\<close> and \<^verbatim>\<open>write\<close>\<close>

text \<open>
  \<^verbatim>\<open>_flush\<close>: after the guard, \<open>gz_file.close()\<close> (a second close does nothing); inside the
  \<open>try\<close>, \<open>buffer.seek(0)\<close> raises on a closed buffer, so \<open>put_object\<close> is not reached and the
  handler logs; \<open>finally\<close> closes the buffer.
\<close>

definition fl_flush :: "(nat \<Rightarrow> bool) \<Rightarrow> uploader \<Rightarrow> put_call list \<Rightarrow> uploader \<times> put_call list" where
  "fl_flush oss u log =
     (if line_count u = 0 \<or> uploaded u then (u, log)
      else let u1 = u\<lparr>gz_closed := True\<rparr> in
        if buffer_closed u1 then (u1, log)
        else case put_object oss (object_key u1) (gz_data u1) log of
               (True, log') \<Rightarrow> (u1\<lparr>uploaded := True, buffer_closed := True\<rparr>, log')
             | (False, log') \<Rightarrow> (u1\<lparr>buffer_closed := True\<rparr>, log'))"

text \<open>
  \<^verbatim>\<open>write\<close>: the first component is the exception that leaves the call, if any
  (\<open>gz_file.write\<close> on a closed \<open>GzipFile\<close> raises \<open>ValueError\<close>).
\<close>

definition fl_write :: "(nat \<Rightarrow> bool) \<Rightarrow> string \<Rightarrow> uploader \<Rightarrow> put_call list
    \<Rightarrow> py_error option \<times> uploader \<times> put_call list" where
  "fl_write oss line u log =
     (if uploaded u then (None, u, log)
      else let line_bytes = line @ newline; added_size = length line_bytes in
        if over_limit (limit_bytes u) (current_size u + added_size)
        then (None, fl_flush oss u log)
        else if gz_closed u then (Some ValueError, u, log)
        else (None,
              u\<lparr>gz_data := gz_data u @ [line_bytes],
                current_size := current_size u + added_size,
                line_count := line_count u + 1\<rparr>,
              log))"

text \<open>A sequence of \<open>write\<close> calls by a caller that swallows the exception, as both
  ingestion loops do.\<close>

fun fl_writes :: "(nat \<Rightarrow> bool) \<Rightarrow> string list \<Rightarrow> uploader \<Rightarrow> put_call list \<Rightarrow> uploader \<times> put_call list" where
  "fl_writes oss [] u log = (u, log)"
| "fl_writes oss (l # ls) u log =
     (case fl_write oss l u log of (_, u', log') \<Rightarrow> fl_writes oss ls u' log')"

subsection \<open>Concurrent file: \<^verbatim>\<open>write\<close>, \<^verbatim>\<open>_submit_upload\<close>, \<^verbatim>\<open>_do_upload\<close>\<close>

text \<open>
  \<open>upload_executor\<close> is a queue of submitted \<open>_do_upload\<close> tasks, each holding the bytes read
  at submission and, for the uploader it is bound to, that uploader's key. \<open>write\<close> runs
  under the uploader's lock, so calls from the download workers are serialised; a task of
  the upload pool runs outside the lock, at any later moment.
\<close>

type_synonym upload_task = "(string \<times> string) \<times> string list"

definition sync_submit_upload :: "uploader \<Rightarrow> upload_task list \<Rightarrow> uploader \<times> upload_task list" where
  "sync_submit_upload u queue =
     (if line_count u = 0 \<or> uploaded u then (u, queue)
      else (u\<lparr>gz_closed := True\<rparr>, queue @ [((platform u, geo3 u), gz_data u)]))"

definition sync_do_upload :: "(nat \<Rightarrow> bool) \<Rightarrow> string list \<Rightarrow> uploader \<Rightarrow> put_call list \<Rightarrow> uploader \<times> put_call list" where
  "sync_do_upload oss content u log =
     (case put_object oss (object_key u) content log of
        (_, log') \<Rightarrow> (u\<lparr>uploaded := True\<rparr>, log'))"

definition sync_write :: "string \<Rightarrow> uploader \<Rightarrow> upload_task list
    \<Rightarrow> py_error option \<times> uploader \<times> upload_task list" where
  "sync_write line u queue =
     (if uploaded u then (None, u, queue)
      else let line_bytes = line @ newline; added_size = length line_bytes in
        if over_limit (limit_bytes u) (current_size u + added_size)
        then (None, sync_submit_upload u queue)
        else if gz_closed u then (Some ValueError, u, queue)
        else (None,
              u\<lparr>gz_data := gz_data u @ [line_bytes],
                current_size := current_size u + added_size,
                line_count := line_count u + 1\<rparr>,
              queue))"

text \<open>
  What can happen to one uploader: a worker calls \<open>write\<close> (and swallows its exception), or
  the upload pool finishes the oldest task. All tasks of one uploader carry the same bytes
  (the sink is closed at the first submission), so taking the oldest loses nothing.
\<close>

datatype sync_event = Write string | UploadDone

record sync_state =
  upl :: uploader
  pending :: "upload_task list"
  oss_log :: "put_call list"

definition sync_step :: "(nat \<Rightarrow> bool) \<Rightarrow> sync_state \<Rightarrow> sync_event \<Rightarrow> sync_state" where
  "sync_step oss s e =
     (case e of
        Write l \<Rightarrow> (case sync_write l (upl s) (pending s) of (_, u', q') \<Rightarrow> s\<lparr>upl := u', pending := q'\<rparr>)
      | UploadDone \<Rightarrow>
          (case pending s of
             [] \<Rightarrow> s
           | (key, content) # rest \<Rightarrow>
               (case sync_do_upload oss content (upl s) (oss_log s) of
                  (u', log') \<Rightarrow> \<lparr>upl = u', pending = rest, oss_log = log'\<rparr>)))"

definition sync_run :: "(nat \<Rightarrow> bool) \<Rightarrow> uploader \<Rightarrow> sync_event list \<Rightarrow> sync_state" where
  "sync_run oss u evs = foldl (sync_step oss) \<lparr>upl = u, pending = [], oss_log = []\<rparr> evs"

subsection \<open>\<^verbatim>\<open>online_to_aliyun.py\<close>: the truncation loop of \<open>main\<close>\<close>

text \<open>
  \<^verbatim>\<open>for line in lines: ... if current_size + line_size > max_bytes: break ...\<close>
  The result is \<open>selected_lines\<close> and \<open>current_size\<close> when the loop ends.
\<close>

fun o1_select :: "nat \<Rightarrow> string list \<Rightarrow> string list \<Rightarrow> nat \<Rightarrow> string list \<times> nat" where
  "o1_select max_bytes [] selected_lines cur = (selected_lines, cur)"
| "o1_select max_bytes (line # rest) selected_lines cur =
     (let line_size = length line + 1 in
      if cur + line_size > max_bytes then (selected_lines, cur)
      else o1_select max_bytes rest (selected_lines @ [line]) (cur + line_size))"

section \<open>Records and classification\<close>

text \<open>
  \<open>json.loads\<close> (\<open>orjson.loads\<close> in the concurrent file) is the library's: every run takes it
  as the function \<open>loads\<close>, \<open>None\<close> when it raises. Of a parsed value the code only asks
  whether it is a dict (anything else has no \<open>get\<close>), whether a field is a \<open>str\<close> (anything
  else has no \<open>strip\<close>), and for \<open>str(field)\<close>: a value that is not a string is carried as
  the text \<open>str\<close> gives for it.
\<close>

datatype jval = JStr string | JOther string

datatype json = JDict "string \<Rightarrow> jval option" | JNotDict

text \<open>\<^verbatim>\<open>data.get(key, "")\<close>\<close>

definition get_field :: "(string \<Rightarrow> jval option) \<Rightarrow> string \<Rightarrow> jval" where
  "get_field data k = (case data k of None \<Rightarrow> JStr [] | Some v \<Rightarrow> v)"

text \<open>\<^verbatim>\<open>data.get(key, "").strip().upper()\<close> and \<^verbatim>\<open>....strip().lower()\<close>\<close>

definition strip_upper :: "jval \<Rightarrow> py_error + string" where
  "strip_upper v = (case v of JStr s \<Rightarrow> Inr (upper (strip s)) | JOther _ \<Rightarrow> Inl AttributeError)"

definition strip_lower :: "jval \<Rightarrow> py_error + string" where
  "strip_lower v = (case v of JStr s \<Rightarrow> Inr (lower (strip s)) | JOther _ \<Rightarrow> Inl AttributeError)"

definition py_str :: "jval \<Rightarrow> string" where
  "py_str v = (case v of JStr s \<Rightarrow> s | JOther s \<Rightarrow> s)"

text \<open>
  \<open>pycountry.countries.get(alpha_2=cc2)\<close> is the library's: \<open>countries\<close> gives the alpha-3 code
  of an alpha-2 code it knows. A miss and an exception both give \<open>xxx\<close>.
\<close>

definition country_2to3_lower :: "(string \<Rightarrow> string option) \<Rightarrow> string \<Rightarrow> string" where
  "country_2to3_lower countries cc2 =
     (case countries cc2 of None \<Rightarrow> ''xxx'' | Some alpha_3 \<Rightarrow> lower alpha_3)"

text \<open>\<open>SIZE_LIMITS_MB\<close> of each file.\<close>

definition fl_SIZE_LIMITS_MB :: "((string \<times> string) \<times> nat) list" where
  "fl_SIZE_LIMITS_MB =
     [((''android'', ''are''), 10), ((''android'', ''bra''), 90), ((''android'', ''can''), 10),
      ((''android'', ''deu''), 10), ((''android'', ''esp''), 30), ((''android'', ''fra''), 10),
      ((''android'', ''gbr''), 10), ((''android'', ''idn''), 100), ((''android'', ''ind''), 20),
      ((''android'', ''ita''), 10), ((''android'', ''kor''), 10), ((''android'', ''mex''), 70),
      ((''android'', ''nld''), 10), ((''android'', ''phl''), 80), ((''android'', ''pol''), 10),
      ((''android'', ''rus''), 100), ((''android'', ''sau''), 30), ((''android'', ''tha''), 40),
      ((''android'', ''ukr''), 10), ((''android'', ''usa''), 60)]"

definition sync_SIZE_LIMITS_MB :: "((string \<times> string) \<times> nat) list" where
  "sync_SIZE_LIMITS_MB =
     [((''android'', ''idn''), 200), ((''android'', ''tha''), 100), ((''android'', ''phl''), 240),
      ((''android'', ''ita''), 15), ((''android'', ''pol''), 20), ((''android'', ''nld''), 20),
      ((''android'', ''bra''), 80), ((''android'', ''mex''), 150), ((''android'', ''zaf''), 20),
      ((''android'', ''kor''), 7), ((''android'', ''ukr''), 20), ((''android'', ''can''), 11),
      ((''android'', ''usa''), 40), ((''android'', ''esp''), 35), ((''android'', ''ind''), 75),
      ((''android'', ''sau''), 70), ((''android'', ''fra''), 50), ((''android'', ''gbr''), 20),
      ((''android'', ''deu''), 75), ((''android'', ''are''), 40), ((''android'', ''rus''), 200)]"

definition o1_SIZE_LIMITS_MB :: "((string \<times> string) \<times> nat) list" where
  "o1_SIZE_LIMITS_MB = sync_SIZE_LIMITS_MB"

definition o2_SIZE_LIMITS_MB :: "((string \<times> string) \<times> nat) list" where
  "o2_SIZE_LIMITS_MB = [((''android'', ''usa''), 50), ((''ios'', ''chn''), 100)]"

definition ALI_BUCKET_NAME :: string where
  "ALI_BUCKET_NAME = ''tracking-collect-data-test''"

text \<open>
  The classification block of both \<^verbatim>\<open>cos_*\<close> files (the body of the inner \<open>try\<close>, up to the
  call of \<open>get_uploader\<close>): \<open>Inl\<close> is the exception the handler swallows, \<open>Inr None\<close> a
  \<open>continue\<close>, \<open>Inr (Some key)\<close> the key the line goes to. The concurrent file computes
  \<open>platform\<close> and \<open>geo3\<close> twice, to the same values.
\<close>

definition classify :: "(string \<Rightarrow> string option) \<Rightarrow> ((string \<times> string) \<times> nat) list
    \<Rightarrow> (string \<Rightarrow> jval option) \<Rightarrow> py_error + (string \<times> string) option" where
  "classify countries limits data =
     (case strip_upper (get_field data ''country_code'') of
        Inl e \<Rightarrow> Inl e
      | Inr cc2_raw \<Rightarrow>
          let cc2 = (if cc2_raw = ''UK'' then ''GB'' else cc2_raw) in
          (case strip_lower (get_field data ''platform'') of
             Inl e \<Rightarrow> Inl e
           | Inr platform' \<Rightarrow>
               if platform' \<notin> set [''android'', ''ios''] then Inr None
               else let geo3' = country_2to3_lower countries cc2 in
                 if geo3' = ''xxx'' then Inr None
                 else (case map_of limits (platform', geo3') of
                         None \<Rightarrow> Inr None
                       | Some limit_mb \<Rightarrow>
                           if limit_mb = 0 then Inr None else Inr (Some (platform', geo3')))))"

text \<open>
  The grouping key of both \<^verbatim>\<open>online_*\<close> files: no \<open>UK\<close> rule, no test for \<open>xxx\<close>, no
  look-up in the table.
\<close>

definition o_classify :: "(string \<Rightarrow> string option) \<Rightarrow> (string \<Rightarrow> jval option)
    \<Rightarrow> py_error + (string \<times> string) option" where
  "o_classify countries data =
     (case strip_upper (get_field data ''country_code'') of
        Inl e \<Rightarrow> Inl e
      | Inr cc2 \<Rightarrow>
          (case strip_lower (get_field data ''platform'') of
             Inl e \<Rightarrow> Inl e
           | Inr platform' \<Rightarrow>
               if platform' \<notin> set [''android'', ''ios''] then Inr None
               else Inr (Some (platform', country_2to3_lower countries cc2))))"

definition transform_line :: "(string \<Rightarrow> jval option) \<Rightarrow> string \<Rightarrow> string" where
  "transform_line data geo3' =
     (let os = get_field data ''platform'';
          osi = (if os = JStr ''ios'' then ''1'' else if os = JStr ''android'' then ''2'' else ''0'');
          fields = [upper geo3', osi,
                    py_str (get_field data ''display_manager''),
                    py_str (get_field data ''deviceId''),
                    py_str (get_field data ''brand''),
                    py_str (get_field data ''user_agent''),
                    py_str (get_field data ''ip''),
                    py_str (get_field data ''language''),
                    py_str (get_field data ''timestamp''),
                    py_str (get_field data ''os_version''),
                    py_str (get_field data ''app_id''),
                    py_str (get_field data ''model''),
                    py_str (get_field data ''network_type'')]
      in join ''@'' fields)"

section \<open>The hour of a run\<close>

text \<open>
  A naive \<open>datetime\<close> is the number of microseconds since 1970-01-01 00:00:00; adding a
  \<open>timedelta\<close> adds microseconds, \<open>replace(minute=0, second=0, microsecond=0)\<close> rounds down to
  the hour. \<open>strftime\<close> is the library's: the date is computed from the day number in the
  proleptic Gregorian calendar, for years 0 to 9999.
\<close>

type_synonym datetime = int

definition hour_us :: int where
  "hour_us = 3600000000"

definition replace_hour_start :: "datetime \<Rightarrow> datetime" where
  "replace_hour_start t = t - t mod hour_us"

definition get_time_ranges_for_previous_hour :: "datetime \<Rightarrow> datetime \<times> datetime" where
  "get_time_ranges_for_previous_hour now_utc =
     (let prev_hour_utc = replace_hour_start now_utc - 1 * hour_us;
          utc0_hour_dt = prev_hour_utc;
          utc8_now = now_utc + 8 * hour_us;
          utc8_prev_hour = replace_hour_start utc8_now - 1 * hour_us
      in (utc0_hour_dt, utc8_prev_hour))"

text \<open>\<^verbatim>\<open>online_to_aliyun2.py\<close> starts from the local clock of a machine set to UTC+8.\<close>

definition o2_get_time_ranges_for_previous_hour :: "datetime \<Rightarrow> datetime \<times> datetime" where
  "o2_get_time_ranges_for_previous_hour local_now =
     (let utc8_prev_hour = replace_hour_start local_now - 1 * hour_us;
          utc0_prev_hour = utc8_prev_hour - 8 * hour_us
      in (utc0_prev_hour, utc8_prev_hour))"

definition civil_from_days :: "int \<Rightarrow> int \<times> int \<times> int" where
  "civil_from_days days =
     (let z = days + 719468;
          era = z div 146097;
          doe = z mod 146097;
          yoe = (doe - doe div 1460 + doe div 36524 - doe div 146096) div 365;
          doy = doe - (365 * yoe + yoe div 4 - yoe div 100);
          mp = (5 * doy + 2) div 153;
          d = doy - (153 * mp + 2) div 5 + 1;
          m = (if mp < 10 then mp + 3 else mp - 9);
          y = yoe + era * 400 + (if m \<le> 2 then 1 else 0)
      in (y, m, d))"

definition digit :: "int \<Rightarrow> char" where
  "digit n = ''0123456789'' ! nat (n mod 10)"

definition pad2 :: "int \<Rightarrow> string" where
  "pad2 n = [digit (n div 10), digit n]"

definition pad4 :: "int \<Rightarrow> string" where
  "pad4 n = [digit (n div 1000), digit (n div 100), digit (n div 10), digit n]"

text \<open>\<^verbatim>\<open>strftime("%Y-%m-%d")\<close>, \<^verbatim>\<open>strftime("%Y%m%d")\<close> and \<^verbatim>\<open>strftime("%H")\<close>\<close>

definition strftime_Y_m_d :: "datetime \<Rightarrow> string" where
  "strftime_Y_m_d t =
     (case civil_from_days (t div (24 * hour_us)) of
        (y, m, d) \<Rightarrow> pad4 y @ ''-'' @ pad2 m @ ''-'' @ pad2 d)"

definition strftime_Ymd :: "datetime \<Rightarrow> string" where
  "strftime_Ymd t =
     (case civil_from_days (t div (24 * hour_us)) of
        (y, m, d) \<Rightarrow> pad4 y @ pad2 m @ pad2 d)"

definition strftime_H :: "datetime \<Rightarrow> string" where
  "strftime_H t = pad2 ((t div hour_us) mod 24)"


section \<open>The four runs\<close>

text \<open>
  A run reads \<open>files\<close>: the objects that were listed and streamed, each as its lines after
  \<open>strip\<close> and \<open>decode\<close>. Listing and download failures only shorten this list. The
  uploaders (and the groups of the \<^verbatim>\<open>online_*\<close> files) are a Python dict: an association
  list in insertion order.
\<close>

type_synonym registry = "((string \<times> string) \<times> uploader) list"

subsection \<open>\<^verbatim>\<open>cos_to_aliyun_filesize_limit.py\<close>\<close>

text \<open>\<open>SIZE_LIMITS_MB.get(key) * 5\<close> raises \<open>TypeError\<close> for a key the table lacks.\<close>

definition fl_get_uploader :: "string \<Rightarrow> string \<Rightarrow> string \<times> string \<Rightarrow> registry
    \<Rightarrow> py_error + registry \<times> uploader" where
  "fl_get_uploader d h key uploaders =
     (case map_of uploaders key of
        Some u \<Rightarrow> Inr (uploaders, u)
      | None \<Rightarrow>
          (case map_of fl_SIZE_LIMITS_MB key of
             None \<Rightarrow> Inl TypeError
           | Some m \<Rightarrow>
               let u = BufferedUploader (fst key) (snd key) (Some (m * 5)) d h
               in Inr (uploaders @ [(key, u)], u)))"

text \<open>The body of the loop over the lines of one object; every exception of the inner
  \<open>try\<close> leaves the state as it was when it was raised.\<close>

definition fl_process_line :: "(string \<Rightarrow> json option) \<Rightarrow> (string \<Rightarrow> string option) \<Rightarrow> (nat \<Rightarrow> bool)
    \<Rightarrow> string \<Rightarrow> string \<Rightarrow> string \<Rightarrow> registry \<times> put_call list \<Rightarrow> registry \<times> put_call list" where
  "fl_process_line loads countries oss d h line st =
     (if line = [] then st
      else case loads line of
        None \<Rightarrow> st
      | Some JNotDict \<Rightarrow> st
      | Some (JDict data) \<Rightarrow>
          (case classify countries fl_SIZE_LIMITS_MB data of
             Inl e \<Rightarrow> st
           | Inr None \<Rightarrow> st
           | Inr (Some key) \<Rightarrow>
               (case fl_get_uploader d h key (fst st) of
                  Inl e \<Rightarrow> st
                | Inr (uploaders', u) \<Rightarrow>
                    (case fl_write oss (transform_line data (snd key)) u (snd st) of
                       (e, u', log') \<Rightarrow> (AList.update key u' uploaders', log')))))"

text \<open>\<^verbatim>\<open>for uploader in uploaders.values(): uploader._flush()\<close>\<close>

fun fl_drain :: "(nat \<Rightarrow> bool) \<Rightarrow> registry \<Rightarrow> put_call list \<Rightarrow> registry \<times> put_call list" where
  "fl_drain oss [] log = ([], log)"
| "fl_drain oss ((key, u) # rest) log =
     (case fl_flush oss u log of
        (u', log') \<Rightarrow>
          (case fl_drain oss rest log' of
             (rest', log'') \<Rightarrow> ((key, u') # rest', log'')))"

definition fl_main :: "(string \<Rightarrow> json option) \<Rightarrow> (string \<Rightarrow> string option) \<Rightarrow> (nat \<Rightarrow> bool)
    \<Rightarrow> datetime \<Rightarrow> string list list \<Rightarrow> registry \<times> put_call list" where
  "fl_main loads countries oss now_utc files =
     (case get_time_ranges_for_previous_hour now_utc of
        (utc0_hour_dt, utc8_hour_dt) \<Rightarrow>
          let d = strftime_Y_m_d utc0_hour_dt; h = strftime_H utc0_hour_dt in
          (case fold (\<lambda>file. fold (fl_process_line loads countries oss d h) file) files ([], []) of
             (uploaders, log) \<Rightarrow> fl_drain oss uploaders log))"

subsection \<open>\<^verbatim>\<open>cos_aliyun_fileze_limit_sync.py\<close>\<close>

definition sync_get_uploader :: "string \<Rightarrow> string \<Rightarrow> string \<times> string \<Rightarrow> registry \<Rightarrow> registry \<times> uploader" where
  "sync_get_uploader d h key uploaders =
     (case map_of uploaders key of
        Some u \<Rightarrow> (uploaders, u)
      | None \<Rightarrow>
          let limit_mb = map_of sync_SIZE_LIMITS_MB key;
              u = BufferedUploader (fst key) (snd key) limit_mb d h
          in (uploaders @ [(key, u)], u))"

text \<open>The body of the loop over the lines of one object; the third component is the
  worker's \<open>line_count\<close>, which an exception of \<open>write\<close> leaves as it is.\<close>

definition sync_process_line :: "(string \<Rightarrow> json option) \<Rightarrow> (string \<Rightarrow> string option)
    \<Rightarrow> string \<Rightarrow> string \<Rightarrow> string \<Rightarrow> registry \<times> upload_task list \<times> nat \<Rightarrow> registry \<times> upload_task list \<times> nat" where
  "sync_process_line loads countries d h line st =
     (if line = [] then st
      else case loads line of
        None \<Rightarrow> st
      | Some JNotDict \<Rightarrow> st
      | Some (JDict data) \<Rightarrow>
          (case classify countries sync_SIZE_LIMITS_MB data of
             Inl e \<Rightarrow> st
           | Inr None \<Rightarrow> st
           | Inr (Some key) \<Rightarrow>
               (case st of
                  (uploaders, queue, n) \<Rightarrow>
                    (case sync_get_uploader d h key uploaders of
                       (uploaders', u) \<Rightarrow>
                         (case sync_write (transform_line data (snd key)) u queue of
                            (None, u', queue') \<Rightarrow> (AList.update key u' uploaders', queue', n + 1)
                          | (Some e, u', queue') \<Rightarrow> (AList.update key u' uploaders', queue', n))))))"

text \<open>
  \<open>process_single_file\<close> without its first statement, and with it. The result is what the
  function returns: the early exit is a bare \<open>return\<close>, that is \<open>None\<close>.
\<close>

definition sync_process_single_file_unchecked :: "(string \<Rightarrow> json option) \<Rightarrow> (string \<Rightarrow> string option)
    \<Rightarrow> string \<Rightarrow> string \<Rightarrow> string list \<Rightarrow> registry \<times> upload_task list
    \<Rightarrow> nat option \<times> registry \<times> upload_task list" where
  "sync_process_single_file_unchecked loads countries d h file st =
     (case fold (sync_process_line loads countries d h) file (fst st, snd st, 0) of
        (uploaders, queue, n) \<Rightarrow> (Some n, uploaders, queue))"

definition sync_process_single_file :: "(string \<Rightarrow> json option) \<Rightarrow> (string \<Rightarrow> string option)
    \<Rightarrow> string \<Rightarrow> string \<Rightarrow> string list \<Rightarrow> registry \<times> upload_task list
    \<Rightarrow> nat option \<times> registry \<times> upload_task list" where
  "sync_process_single_file loads countries d h file st =
     (if list_all uploaded (map snd (fst st)) then (None, st)
      else sync_process_single_file_unchecked loads countries d h file st)"

text \<open>The upload pool runs the submitted tasks; \<open>_do_upload\<close> sets the flag of its uploader.\<close>

fun sync_run_uploads :: "(nat \<Rightarrow> bool) \<Rightarrow> upload_task list \<Rightarrow> registry \<Rightarrow> put_call list \<Rightarrow> registry \<times> put_call list" where
  "sync_run_uploads oss [] uploaders log = (uploaders, log)"
| "sync_run_uploads oss ((key, content) # rest) uploaders log =
     (case map_of uploaders key of
        None \<Rightarrow> sync_run_uploads oss rest uploaders log
      | Some u \<Rightarrow>
          (case sync_do_upload oss content u log of
             (u', log') \<Rightarrow> sync_run_uploads oss rest (AList.update key u' uploaders) log'))"

text \<open>\<^verbatim>\<open>total_lines += future.result()\<close> raises \<open>TypeError\<close> on \<open>None\<close>.\<close>

fun sync_total_lines :: "nat option list \<Rightarrow> py_error + nat" where
  "sync_total_lines [] = Inr 0"
| "sync_total_lines (None # rs) = Inl TypeError"
| "sync_total_lines (Some n # rs) = (case sync_total_lines rs of Inl e \<Rightarrow> Inl e | Inr t \<Rightarrow> Inr (n + t))"

fun sync_download :: "(string list \<Rightarrow> registry \<times> upload_task list \<Rightarrow> nat option \<times> registry \<times> upload_task list)
    \<Rightarrow> string list list \<Rightarrow> registry \<times> upload_task list \<Rightarrow> nat option list \<times> registry \<times> upload_task list" where
  "sync_download process [] st = ([], st)"
| "sync_download process (file # files) st =
     (case process file st of
        (r, st') \<Rightarrow> (case sync_download process files st' of (rs, st'') \<Rightarrow> (r # rs, st'')))"

text \<open>
  \<open>main\<close> in one schedule of its pools: the download workers take the objects one after the
  other, and the submitted uploads run when the downloads are over (at
  \<open>upload_executor.shutdown(wait=True)\<close>, or when the interpreter exits after the
  \<open>TypeError\<close>). \<open>main\<close> has no other step between the downloads and the end. The first
  component is \<open>total_lines\<close> or the exception that ends \<open>main\<close>.
\<close>

definition sync_main_with :: "(string \<Rightarrow> string \<Rightarrow> string list \<Rightarrow> registry \<times> upload_task list
      \<Rightarrow> nat option \<times> registry \<times> upload_task list)
    \<Rightarrow> (nat \<Rightarrow> bool) \<Rightarrow> datetime \<Rightarrow> string list list
    \<Rightarrow> (py_error + nat) \<times> registry \<times> put_call list" where
  "sync_main_with process oss now_utc files =
     (case get_time_ranges_for_previous_hour now_utc of
        (utc0_hour_dt, utc8_hour_dt) \<Rightarrow>
          let d = strftime_Y_m_d utc0_hour_dt; h = strftime_H utc0_hour_dt in
          (case sync_download (process d h) files ([], []) of
             (results, uploaders, queue) \<Rightarrow>
               (sync_total_lines results, sync_run_uploads oss queue uploaders [])))"

definition sync_main :: "(string \<Rightarrow> json option) \<Rightarrow> (string \<Rightarrow> string option) \<Rightarrow> (nat \<Rightarrow> bool)
    \<Rightarrow> datetime \<Rightarrow> string list list \<Rightarrow> (py_error + nat) \<times> registry \<times> put_call list" where
  "sync_main loads countries = sync_main_with (sync_process_single_file loads countries)"

text \<open>The run the specification compares it with: the same \<open>main\<close>, its workers not
  performing the check.\<close>

definition sync_main_unchecked :: "(string \<Rightarrow> json option) \<Rightarrow> (string \<Rightarrow> string option) \<Rightarrow> (nat \<Rightarrow> bool)
    \<Rightarrow> datetime \<Rightarrow> string list list \<Rightarrow> (py_error + nat) \<times> registry \<times> put_call list" where
  "sync_main_unchecked loads countries = sync_main_with (sync_process_single_file_unchecked loads countries)"

subsection \<open>\<^verbatim>\<open>online_to_aliyun.py\<close>\<close>

type_synonym groups = "((string \<times> string) \<times> string list) list"

text \<open>Step 2, one line: \<open>grouped_data[(platform, geo3_lower)].append(line)\<close>.\<close>

definition o1_group :: "(string \<Rightarrow> json option) \<Rightarrow> (string \<Rightarrow> string option) \<Rightarrow> string \<Rightarrow> groups \<Rightarrow> groups" where
  "o1_group loads countries line grouped_data =
     (case loads line of
        None \<Rightarrow> grouped_data
      | Some JNotDict \<Rightarrow> grouped_data
      | Some (JDict data) \<Rightarrow>
          (case o_classify countries data of
             Inl e \<Rightarrow> grouped_data
           | Inr None \<Rightarrow> grouped_data
           | Inr (Some key) \<Rightarrow>
               (case map_of grouped_data key of
                  None \<Rightarrow> grouped_data @ [(key, [line])]
                | Some lines \<Rightarrow> AList.update key (lines @ [line]) grouped_data)))"

text \<open>Step 3, one group: no entry in the table keeps every line.\<close>

definition o1_limit :: "(string \<times> string) \<times> string list \<Rightarrow> (string \<times> string) \<times> string list" where
  "o1_limit task =
     (case map_of o1_SIZE_LIMITS_MB (fst task) of
        None \<Rightarrow> task
      | Some limit_mb \<Rightarrow> (fst task, fst (o1_select (limit_mb * 1024 * 1024) (snd task) [] 0)))"

text \<open>Step 4, one task; the same loop ends \<^verbatim>\<open>online_to_aliyun2.py\<close>.\<close>

definition o_upload :: "(nat \<Rightarrow> bool) \<Rightarrow> string \<Rightarrow> string \<Rightarrow> (string \<times> string) \<times> string list
    \<Rightarrow> put_call list \<Rightarrow> put_call list" where
  "o_upload oss d h task log =
     (case task of
        ((platform', geo3'), lines) \<Rightarrow>
          if lines = [] then log
          else let filename = platform' @ ''.'' @ geo3' @ ''.log.gz'';
                   full_path = ALI_BUCKET_NAME @ ''/track/'' @ d @ ''/'' @ h @ ''/'' @ filename;
                   content = join newline lines
               in snd (put_object oss full_path [content] log))"

definition o1_main :: "(string \<Rightarrow> json option) \<Rightarrow> (string \<Rightarrow> string option) \<Rightarrow> (nat \<Rightarrow> bool)
    \<Rightarrow> datetime \<Rightarrow> string list list \<Rightarrow> put_call list" where
  "o1_main loads countries oss now_utc files =
     (case get_time_ranges_for_previous_hour now_utc of
        (utc0_hour_dt, utc8_hour_dt) \<Rightarrow>
          let log_lines = concat (map (filter (\<lambda>line. line \<noteq> [])) files) in
          if log_lines = [] then []
          else let grouped_data = fold (o1_group loads countries) log_lines [] in
            if grouped_data = [] then []
            else let upload_tasks = map o1_limit grouped_data;
                     d = strftime_Y_m_d utc0_hour_dt; h = strftime_H utc0_hour_dt
                 in fold (o_upload oss d h) upload_tasks [])"

subsection \<open>\<^verbatim>\<open>online_to_aliyun2.py\<close>\<close>

type_synonym o2_buffers = "((string \<times> string) \<times> string list \<times> nat) list"

text \<open>\<open>buffers\<close> is a \<open>defaultdict\<close>: reading \<open>buffers[key]\<close> creates an empty entry.\<close>

definition o2_touch :: "string \<times> string \<Rightarrow> o2_buffers \<Rightarrow> o2_buffers" where
  "o2_touch key buffers =
     (case map_of buffers key of None \<Rightarrow> buffers @ [(key, ([], 0))] | Some b \<Rightarrow> buffers)"

definition o2_append :: "string \<times> string \<Rightarrow> string \<Rightarrow> nat \<Rightarrow> o2_buffers \<Rightarrow> o2_buffers" where
  "o2_append key line_str line_size buffers =
     (case map_of (o2_touch key buffers) key of
        None \<Rightarrow> buffers
      | Some (lines, cur) \<Rightarrow>
          AList.update key (lines @ [line_str], cur + line_size) (o2_touch key buffers))"

definition o2_process_line :: "(string \<Rightarrow> json option) \<Rightarrow> (string \<Rightarrow> string option) \<Rightarrow> string \<Rightarrow> o2_buffers \<Rightarrow> o2_buffers" where
  "o2_process_line loads countries line_str buffers =
     (case loads line_str of
        None \<Rightarrow> buffers
      | Some JNotDict \<Rightarrow> buffers
      | Some (JDict data) \<Rightarrow>
          (case o_classify countries data of
             Inl e \<Rightarrow> buffers
           | Inr None \<Rightarrow> buffers
           | Inr (Some key) \<Rightarrow>
               let line_size = length line_str + 1;
                   max_size = map_option (\<lambda>v. v * 1024 * 1024) (map_of o2_SIZE_LIMITS_MB key)
               in (case max_size of
                     None \<Rightarrow> o2_append key line_str line_size buffers
                   | Some mx \<Rightarrow>
                       (case map_of (o2_touch key buffers) key of
                          None \<Rightarrow> buffers
                        | Some (lines, cur) \<Rightarrow>
                            if cur + line_size \<le> mx
                            then o2_append key line_str line_size buffers
                            else o2_touch key buffers))))"

definition o2_main :: "(string \<Rightarrow> json option) \<Rightarrow> (string \<Rightarrow> string option) \<Rightarrow> (nat \<Rightarrow> bool)
    \<Rightarrow> datetime \<Rightarrow> string list list \<Rightarrow> put_call list" where
  "o2_main loads countries oss local_now files =
     (case o2_get_time_ranges_for_previous_hour local_now of
        (utc0_hour_dt, utc8_hour_dt) \<Rightarrow>
          let d = strftime_Y_m_d utc0_hour_dt; h = strftime_H utc0_hour_dt;
              buffers = fold (\<lambda>file. fold (o2_process_line loads countries)
                                           (filter (\<lambda>line. line \<noteq> []) file)) files []
          in fold (o_upload oss d h) (map (\<lambda>(key, lines, cur). (key, lines)) buffers) [])"

section \<open>Inputs used in the examples\<close>

text \<open>A field of 64 MiB: longer than every budget of the concurrent file's table up to
  \<open>(android, usa)\<close>.\<close>

definition big_field :: string where
  "big_field = replicate (64 * 1024 * 1024) (CHR ''x'')"

text \<open>The library's table, as far as the examples need it; \<open>UK\<close> and \<open>ZZ\<close> are no ISO
  codes.\<close>

definition ex_countries :: "string \<Rightarrow> string option" where
  "ex_countries = map_of [(''US'', ''USA''), (''GB'', ''GBR''), (''CN'', ''CHN'')]"

definition line_us :: string where
  "line_us = ''{\"platform\":\"android\",\"country_code\":\"US\",\"deviceId\":\"d1\"}''"

definition data_us :: "string \<Rightarrow> jval option" where
  "data_us = map_of [(''platform'', JStr ''android''), (''country_code'', JStr ''US''),
                     (''deviceId'', JStr ''d1'')]"

definition line_big :: string where
  "line_big = ''{\"user_agent\":\"'' @ big_field @ ''\",\"platform\":\"android\",\"country_code\":\"US\"}''"

definition data_big :: "string \<Rightarrow> jval option" where
  "data_big = map_of [(''user_agent'', JStr big_field), (''platform'', JStr ''android''),
                      (''country_code'', JStr ''US'')]"

definition line_zz :: string where
  "line_zz = ''{\"country_code\":\"ZZ\",\"platform\":\"ios\"}''"

definition data_zz :: "string \<Rightarrow> jval option" where
  "data_zz = map_of [(''country_code'', JStr ''ZZ''), (''platform'', JStr ''ios'')]"

definition line_uk :: string where
  "line_uk = ''{\"deviceId\":\"d2\",\"country_code\":\"UK\",\"platform\":\"android\"}''"

definition data_uk :: "string \<Rightarrow> jval option" where
  "data_uk = map_of [(''deviceId'', JStr ''d2''), (''country_code'', JStr ''UK''),
                     (''platform'', JStr ''android'')]"

definition line_gb :: string where
  "line_gb = ''{\"deviceId\":\"d2\",\"country_code\":\"GB\",\"platform\":\"android\"}''"

definition line_win :: string where
  "line_win = ''{\"os_version\":\"11\",\"platform\":\"windows\",\"country_code\":\"US\"}''"

definition data_win :: "string \<Rightarrow> jval option" where
  "data_win = map_of [(''os_version'', JStr ''11''), (''platform'', JStr ''windows''),
                      (''country_code'', JStr ''US'')]"

text \<open>What \<open>json.loads\<close> gives for these lines.\<close>

definition ex_loads :: "string \<Rightarrow> json option" where
  "ex_loads line =
     (if line = line_us then Some (JDict data_us)
      else if line = line_big then Some (JDict data_big)
      else if line = line_zz then Some (JDict data_zz)
      else if line = line_uk then Some (JDict data_uk)
      else if line = line_gb then Some (JDict (data_uk(''country_code'' \<mapsto> JStr ''GB'')))
      else if line = line_win then Some (JDict data_win)
      else None)"

text \<open>A moment of 2023-11-14, 22:13:20 UTC.\<close>

definition ex_now :: datetime where
  "ex_now = 1700000000 * 1000000"

section \<open>What the specification says of an uploaded object\<close>

text \<open>
  The destination key in the specification's words, for a date, an hour and a group key.
\<close>

definition track_key :: "string \<Rightarrow> string \<Rightarrow> string \<times> string \<Rightarrow> string" where
  "track_key d h key = ''track/'' @ d @ ''/'' @ h @ ''/'' @ fst key @ ''.'' @ snd key @ ''.log.gz''"

text \<open>
  The output line in the specification's words, for an alpha-3 code, a platform code and a
  record: \<open>COUNTRY3_UPPER@PLATFORM_CODE@displayManager@deviceId@brand@userAgent@ip@language@\<close>
  \<open>timestamp@osVersion@appId@model@networkType\<close>, and the platform code: \<open>2\<close> for android,
  \<open>1\<close> for ios, \<open>0\<close> otherwise.
\<close>

definition output_line :: "string \<Rightarrow> string \<Rightarrow> (string \<Rightarrow> jval option) \<Rightarrow> string" where
  "output_line country3 code data =
     upper country3 @ ''@'' @ code @ ''@''
     @ py_str (get_field data ''display_manager'') @ ''@''
     @ py_str (get_field data ''deviceId'') @ ''@''
     @ py_str (get_field data ''brand'') @ ''@''
     @ py_str (get_field data ''user_agent'') @ ''@''
     @ py_str (get_field data ''ip'') @ ''@''
     @ py_str (get_field data ''language'') @ ''@''
     @ py_str (get_field data ''timestamp'') @ ''@''
     @ py_str (get_field data ''os_version'') @ ''@''
     @ py_str (get_field data ''app_id'') @ ''@''
     @ py_str (get_field data ''model'') @ ''@''
     @ py_str (get_field data ''network_type'')"

definition platform_code :: "string \<Rightarrow> string" where
  "platform_code p = (if p = ''android'' then ''2'' else if p = ''ios'' then ''1'' else ''0'')"

text \<open>
  A record of the input that the \<^verbatim>\<open>cos_*\<close> classification sends to \<open>key\<close>; a chunk that is
  the output line of such a record, newline-terminated, with the platform code of the key
  when the record's platform field is written as the key has it.
\<close>

definition record_of_input :: "(string \<Rightarrow> json option) \<Rightarrow> (string \<Rightarrow> string option)
    \<Rightarrow> ((string \<times> string) \<times> nat) list \<Rightarrow> string list list \<Rightarrow> string \<times> string
    \<Rightarrow> (string \<Rightarrow> jval option) \<Rightarrow> bool" where
  "record_of_input loads countries limits files key data \<longleftrightarrow>
     (\<exists>obj \<in> set files. \<exists>line \<in> set obj.
        loads line = Some (JDict data) \<and> classify countries limits data = Inr (Some key))"

definition from_input :: "(string \<Rightarrow> json option) \<Rightarrow> (string \<Rightarrow> string option)
    \<Rightarrow> ((string \<times> string) \<times> nat) list \<Rightarrow> string list list \<Rightarrow> string \<times> string \<Rightarrow> string \<Rightarrow> bool" where
  "from_input loads countries limits files key chunk \<longleftrightarrow>
     (\<exists>data code.
        record_of_input loads countries limits files key data
        \<and> chunk = output_line (snd key) code data @ newline
        \<and> (get_field data ''platform'' = JStr (fst key) \<longrightarrow> code = platform_code (fst key)))"


section \<open>Invariants used in the proofs\<close>

text \<open>
  What every \<open>BufferedUploader\<close> with a budget of \<open>b\<close> bytes satisfies between calls, and
  what one uploader and its pending upload tasks satisfy in the concurrent file.
\<close>

definition buffer_inv :: "nat \<Rightarrow> uploader \<Rightarrow> bool" where
  "buffer_inv b u \<longleftrightarrow>
     limit_bytes u = Some b \<and> 0 < b \<and>
     current_size u = sum_list (map length (gz_data u)) \<and>
     current_size u \<le> b \<and>
     line_count u = length (gz_data u) \<and>
     (uploaded u \<longrightarrow> gz_closed u) \<and>
     (buffer_closed u \<longrightarrow> gz_closed u) \<and>
     (gz_closed u \<longrightarrow> 0 < line_count u)"

definition sync_inv :: "nat \<Rightarrow> sync_state \<Rightarrow> bool" where
  "sync_inv b s \<longleftrightarrow> buffer_inv b (upl s) \<and> (pending s \<noteq> [] \<longrightarrow> gz_closed (upl s))"

text \<open>An uploader registered under \<open>k\<close> carries that key and the run's date and hour, the
  key satisfies \<open>K\<close>, and every chunk it holds satisfies \<open>P k\<close>; every logged call went to
  the key of some group that satisfies \<open>K\<close> and holds only chunks of that group.\<close>

definition uploader_ok :: "(string \<times> string \<Rightarrow> bool) \<Rightarrow> (string \<times> string \<Rightarrow> string \<Rightarrow> bool)
    \<Rightarrow> string \<Rightarrow> string \<Rightarrow> string \<times> string \<Rightarrow> uploader \<Rightarrow> bool" where
  "uploader_ok K P d h k u \<longleftrightarrow>
     K k \<and> platform u = fst k \<and> geo3 u = snd k \<and> date_part u = d \<and> hour_part u = h
     \<and> (\<forall>c \<in> set (gz_data u). P k c)"

definition registry_ok :: "(string \<times> string \<Rightarrow> bool) \<Rightarrow> (string \<times> string \<Rightarrow> string \<Rightarrow> bool)
    \<Rightarrow> string \<Rightarrow> string \<Rightarrow> registry \<Rightarrow> bool" where
  "registry_ok K P d h uploaders \<longleftrightarrow> (\<forall>(k, u) \<in> set uploaders. uploader_ok K P d h k u)"

definition log_ok :: "(string \<times> string \<Rightarrow> bool) \<Rightarrow> (string \<times> string \<Rightarrow> string \<Rightarrow> bool)
    \<Rightarrow> string \<Rightarrow> string \<Rightarrow> put_call list \<Rightarrow> bool" where
  "log_ok K P d h log \<longleftrightarrow>
     (\<forall>put \<in> set log.
        \<exists>k. K k \<and> put_key put = track_key d h k \<and> (\<forall>c \<in> set (put_body put). P k c))"

text \<open>One uploader of the concurrent file, its pending tasks and the calls made for it:
  the key is \<open>K\<close> and every chunk is in \<open>W\<close>.\<close>

definition sync_puts_ok :: "string set \<Rightarrow> string \<Rightarrow> sync_state \<Rightarrow> bool" where
  "sync_puts_ok W K s \<longleftrightarrow>
     object_key (upl s) = K \<and> set (gz_data (upl s)) \<subseteq> W
     \<and> (\<forall>task \<in> set (pending s). set (snd task) \<subseteq> W)
     \<and> (\<forall>put \<in> set (oss_log s). put_key put = K \<and> set (put_body put) \<subseteq> W)"

text \<open>The sequential file, one uploader and the calls made for it: no call before the sink
  is closed, one call and a closed buffer after.\<close>

definition fl_once :: "uploader \<Rightarrow> put_call list \<Rightarrow> bool" where
  "fl_once u log \<longleftrightarrow>
     (if gz_closed u then buffer_closed u \<and> length log = 1 \<and> 0 < line_count u
      else log = [] \<and> \<not> buffer_closed u \<and> \<not> uploaded u)"

section \<open>The buffer stays within its budget\<close>

lemma buffer_inv_init: "0 < m \<Longrightarrow> buffer_inv (m * 1024 * 1024) (BufferedUploader p g (Some m) d h)"
  by (simp add: buffer_inv_def BufferedUploader_def)

lemma fl_flush_fields:
  "gz_data (fst (fl_flush oss u log)) = gz_data u"
  "current_size (fst (fl_flush oss u log)) = current_size u"
  "line_count (fst (fl_flush oss u log)) = line_count u"
  "limit_bytes (fst (fl_flush oss u log)) = limit_bytes u"
  by (simp_all add: fl_flush_def put_object_def Let_def split: prod.splits bool.splits)

lemma fl_flush_inv: "buffer_inv b u \<Longrightarrow> buffer_inv b (fst (fl_flush oss u log))"
  by (auto simp: buffer_inv_def fl_flush_def put_object_def Let_def split: prod.splits bool.splits)

lemma fl_write_inv: "buffer_inv b u \<Longrightarrow> buffer_inv b (fst (snd (fl_write oss l u log)))"
  using fl_flush_inv [of b u oss log]
  by (auto simp: fl_write_def Let_def over_limit_def buffer_inv_def newline_def)

lemma fl_writes_inv: "buffer_inv b u \<Longrightarrow> buffer_inv b (fst (fl_writes oss ls u log))"
proof (induction ls arbitrary: u log)
  case Nil
  then show ?case by simp
next
  case (Cons l ls)
  from fl_write_inv [OF Cons.prems, of oss l log]
  show ?case by (auto split: prod.splits intro: Cons.IH)
qed

lemma fl_write_step:
  assumes "buffer_inv b u"
  shows "(gz_data (fst (snd (fl_write oss l u log))) = gz_data u @ [l @ newline])
           = (\<not> gz_closed u \<and> current_size u + length l + 1 \<le> b)"
    and "gz_data (fst (snd (fl_write oss l u log))) = gz_data u @ [l @ newline]
         \<or> gz_data (fst (snd (fl_write oss l u log))) = gz_data u"
    and "current_size u \<le> current_size (fst (snd (fl_write oss l u log)))"
  using assms fl_flush_fields [of oss u log]
  by (auto simp: fl_write_def Let_def over_limit_def buffer_inv_def newline_def)

lemma sync_submit_fields:
  "gz_data (fst (sync_submit_upload u q)) = gz_data u"
  "current_size (fst (sync_submit_upload u q)) = current_size u"
  by (simp_all add: sync_submit_upload_def)

lemma sync_submit_inv: "buffer_inv b u \<Longrightarrow> buffer_inv b (fst (sync_submit_upload u q))"
  by (auto simp: buffer_inv_def sync_submit_upload_def)

lemma sync_write_inv: "buffer_inv b u \<Longrightarrow> buffer_inv b (fst (snd (sync_write l u q)))"
  using sync_submit_inv [of b u q]
  by (auto simp: sync_write_def Let_def over_limit_def buffer_inv_def newline_def)

lemma sync_step_inv: "sync_inv b s \<Longrightarrow> sync_inv b (sync_step oss s e)"
proof (cases e)
  case (Write l)
  assume "sync_inv b s"
  then show ?thesis using Write sync_write_inv [of b "upl s" l "pending s"]
    by (auto simp: sync_inv_def sync_step_def sync_write_def Let_def sync_submit_upload_def
        split: prod.splits if_splits)
next
  case UploadDone
  assume "sync_inv b s"
  then show ?thesis using UploadDone
    by (auto simp: sync_inv_def sync_step_def sync_do_upload_def put_object_def buffer_inv_def
        split: list.splits prod.splits)
qed

lemma sync_foldl_inv: "sync_inv b s \<Longrightarrow> sync_inv b (foldl (sync_step oss) s evs)"
  by (induction evs arbitrary: s) (auto intro: sync_step_inv)

lemma sync_run_inv:
  "0 < m \<Longrightarrow> sync_inv (m * 1024 * 1024) (sync_run oss (BufferedUploader p g (Some m) d h) evs)"
  unfolding sync_run_def
  using buffer_inv_init [of m p g d h]
  by (intro sync_foldl_inv) (simp add: sync_inv_def)

lemma sync_write_step:
  assumes "buffer_inv b u"
  shows "(gz_data (fst (snd (sync_write l u q))) = gz_data u @ [l @ newline])
           = (\<not> gz_closed u \<and> current_size u + length l + 1 \<le> b)"
    and "gz_data (fst (snd (sync_write l u q))) = gz_data u @ [l @ newline]
         \<or> gz_data (fst (snd (sync_write l u q))) = gz_data u"
    and "current_size u \<le> current_size (fst (snd (sync_write l u q)))"
  using assms sync_submit_fields [of u q]
  by (auto simp: sync_write_def Let_def over_limit_def buffer_inv_def newline_def)

lemma o1_select_spec:
  "o1_select b ls sel cur = (sel', cur') \<Longrightarrow>
     \<exists>k\<le>length ls. sel' = sel @ take k ls
        \<and> cur' = cur + sum_list (map (\<lambda>l. length l + 1) (take k ls))
        \<and> (cur \<le> b \<longrightarrow> cur' \<le> b)
        \<and> (k < length ls \<longrightarrow> b < cur' + length (ls ! k) + 1)"
proof (induction ls arbitrary: sel cur)
  case Nil
  then show ?case by simp
next
  case (Cons l ls)
  show ?case
  proof (cases "cur + (length l + 1) > b")
    case True
    with Cons.prems have "sel' = sel" "cur' = cur" by (simp_all add: Let_def)
    with True show ?thesis by (intro exI [of _ 0]) simp
  next
    case False
    with Cons.prems have "o1_select b ls (sel @ [l]) (cur + (length l + 1)) = (sel', cur')"
      by (simp add: Let_def)
    from Cons.IH [OF this] obtain k where k: "k \<le> length ls" "sel' = (sel @ [l]) @ take k ls"
      "cur' = cur + (length l + 1) + sum_list (map (\<lambda>l. length l + 1) (take k ls))"
      "cur + (length l + 1) \<le> b \<longrightarrow> cur' \<le> b"
      "k < length ls \<longrightarrow> b < cur' + length (ls ! k) + 1" by blast
    with False show ?thesis by (intro exI [of _ "Suc k"]) simp
  qed
qed

lemma o1_select_prefix:
  "o1_select b ls [] 0 = (sel, cur) \<Longrightarrow>
     length sel \<le> length ls \<and> sel = take (length sel) ls
     \<and> cur = sum_list (map (\<lambda>l. length l + 1) sel) \<and> cur \<le> b
     \<and> (length sel < length ls \<longrightarrow> b < cur + length (ls ! length sel) + 1)"
  by (drule o1_select_spec) (auto simp: min_def)

text \<open>
  Claim C1. For a buffer with byte budget \<open>B = limit_mb * 1024 * 1024\<close> and every sequence of
  \<open>write\<close> calls (in the concurrent file interleaved in any way with completions of upload
  tasks), a further line is appended exactly when no flush has closed the sink yet and
  \<open>current_size + byteLength(line) + 1 \<le> B\<close>; a write appends the whole line with its
  newline or nothing; \<open>current_size\<close> is the number of bytes appended (each line with its
  newline), never decreases and never exceeds \<open>B\<close>. In \<^verbatim>\<open>online_to_aliyun.py\<close> the loop
  keeps the longest prefix of the group's lines that fits: it stops at the first line that
  would exceed \<open>B\<close>, and \<open>current_size\<close> is the sum over the kept lines of their length
  plus one.
\<close>

theorem C1_write_within_budget:
  assumes "0 < m"
  shows
    "(case fl_writes oss ls (BufferedUploader p g (Some m) d h) [] of
        (u, log) \<Rightarrow>
          (case fl_write oss l u log of
             (e, u', log') \<Rightarrow>
               ((gz_data u' = gz_data u @ [l @ newline])
                  = (\<not> gz_closed u \<and> current_size u + length l + 1 \<le> m * 1024 * 1024))
               \<and> (gz_data u' = gz_data u @ [l @ newline] \<or> gz_data u' = gz_data u)
               \<and> current_size u = sum_list (map length (gz_data u))
               \<and> current_size u \<le> current_size u'
               \<and> current_size u' \<le> m * 1024 * 1024))
     \<and> (case sync_run oss (BufferedUploader p g (Some m) d h) evs of
          s \<Rightarrow>
            (case sync_write l (upl s) (pending s) of
               (e, u', q') \<Rightarrow>
                 ((gz_data u' = gz_data (upl s) @ [l @ newline])
                    = (\<not> gz_closed (upl s) \<and> current_size (upl s) + length l + 1 \<le> m * 1024 * 1024))
                 \<and> (gz_data u' = gz_data (upl s) @ [l @ newline] \<or> gz_data u' = gz_data (upl s))
                 \<and> current_size (upl s) = sum_list (map length (gz_data (upl s)))
                 \<and> current_size (upl s) \<le> current_size u'
                 \<and> current_size u' \<le> m * 1024 * 1024))
     \<and> (case o1_select (m * 1024 * 1024) lines [] 0 of
          (selected_lines, cur) \<Rightarrow>
            length selected_lines \<le> length lines
            \<and> selected_lines = take (length selected_lines) lines
            \<and> cur = sum_list (map (\<lambda>l. length l + 1) selected_lines)
            \<and> cur \<le> m * 1024 * 1024
            \<and> (length selected_lines < length lines
                 \<longrightarrow> m * 1024 * 1024 < cur + length (lines ! length selected_lines) + 1))"
proof (intro conjI)
  let ?b = "m * 1024 * 1024"
  let ?u0 = "BufferedUploader p g (Some m) d h"
  obtain u log where r: "fl_writes oss ls ?u0 [] = (u, log)" by force
  have inv: "buffer_inv ?b u"
    using fl_writes_inv [OF buffer_inv_init [OF assms], of oss ls p g d h "[]"] r by simp
  obtain e u' log' where w: "fl_write oss l u log = (e, u', log')"
    by (cases "fl_write oss l u log") auto
  have inv': "buffer_inv ?b u'"
    using fl_write_inv [OF inv, of oss l log] w by simp
  show "case fl_writes oss ls ?u0 [] of
        (u, log) \<Rightarrow>
          (case fl_write oss l u log of
             (e, u', log') \<Rightarrow>
               ((gz_data u' = gz_data u @ [l @ newline])
                  = (\<not> gz_closed u \<and> current_size u + length l + 1 \<le> ?b))
               \<and> (gz_data u' = gz_data u @ [l @ newline] \<or> gz_data u' = gz_data u)
               \<and> current_size u = sum_list (map length (gz_data u))
               \<and> current_size u \<le> current_size u'
               \<and> current_size u' \<le> ?b)"
    using fl_write_step [OF inv, of oss l log] inv inv'
    by (simp add: r w buffer_inv_def)
next
  let ?b = "m * 1024 * 1024"
  let ?s = "sync_run oss (BufferedUploader p g (Some m) d h) evs"
  have inv: "buffer_inv ?b (upl ?s)"
    using sync_run_inv [OF assms, of oss p g d h evs] by (simp add: sync_inv_def)
  obtain e u' q' where w: "sync_write l (upl ?s) (pending ?s) = (e, u', q')"
    by (cases "sync_write l (upl ?s) (pending ?s)") auto
  have inv': "buffer_inv ?b u'"
    using sync_write_inv [OF inv, of l "pending ?s"] w by simp
  show "case ?s of
          s \<Rightarrow>
            (case sync_write l (upl s) (pending s) of
               (e, u', q') \<Rightarrow>
                 ((gz_data u' = gz_data (upl s) @ [l @ newline])
                    = (\<not> gz_closed (upl s) \<and> current_size (upl s) + length l + 1 \<le> ?b))
                 \<and> (gz_data u' = gz_data (upl s) @ [l @ newline] \<or> gz_data u' = gz_data (upl s))
                 \<and> current_size (upl s) = sum_list (map length (gz_data (upl s)))
                 \<and> current_size (upl s) \<le> current_size u'
                 \<and> current_size u' \<le> ?b)"
    using sync_write_step [OF inv, of l "pending ?s"] inv inv'
    by (simp add: w buffer_inv_def)
next
  show "case o1_select (m * 1024 * 1024) lines [] 0 of
          (selected_lines, cur) \<Rightarrow>
            length selected_lines \<le> length lines
            \<and> selected_lines = take (length selected_lines) lines
            \<and> cur = sum_list (map (\<lambda>l. length l + 1) selected_lines)
            \<and> cur \<le> m * 1024 * 1024
            \<and> (length selected_lines < length lines
                 \<longrightarrow> m * 1024 * 1024 < cur + length (lines ! length selected_lines) + 1)"
    using o1_select_prefix [of "m * 1024 * 1024" lines]
    by (auto split: prod.splits)
qed

text \<open>The budget of one megabyte, two short lines: both are appended.\<close>

theorem C1_write_within_budget_witness:
  "0 < (1::nat)
   \<and> (case fl_writes (\<lambda>n. True) [''ab''] (BufferedUploader ''android'' ''usa'' (Some 1) ''2024-05-01'' ''07'') [] of
        (u, log) \<Rightarrow>
          (case fl_write (\<lambda>n. True) ''c'' u log of
             (e, u', log') \<Rightarrow>
               gz_data u = [''ab'' @ newline] \<and> current_size u = 3
               \<and> gz_data u' = [''ab'' @ newline, ''c'' @ newline] \<and> current_size u' = 5))
   \<and> (case sync_run (\<lambda>n. True) (BufferedUploader ''android'' ''usa'' (Some 1) ''2024-05-01'' ''07'')
              [Write ''ab'', UploadDone] of
          s \<Rightarrow>
            (case sync_write ''c'' (upl s) (pending s) of
               (e, u', q') \<Rightarrow>
                 gz_data u' = [''ab'' @ newline, ''c'' @ newline] \<and> current_size u' = 5))
   \<and> o1_select (1 * 1024 * 1024) [''ab'', ''c''] [] 0 = ([''ab'', ''c''], 5)"
  using C1_write_within_budget [where m = 1 and oss = "\<lambda>n. True" and ls = "[''ab'']"
      and p = "''android''" and g = "''usa''" and d = "''2024-05-01''" and h = "''07''"
      and l = "''c''" and evs = "[Write ''ab'', UploadDone]" and lines = "[''ab'', ''c'']"]
  by (simp add: BufferedUploader_def fl_write_def fl_flush_def over_limit_def newline_def
      sync_run_def sync_step_def sync_write_def sync_submit_upload_def Let_def)

section \<open>Flushing once\<close>

lemma length_big_field: "length big_field = 67108864"
  by (simp add: big_field_def)

text \<open>
  The sequential file: a second \<open>_flush\<close> changes nothing and calls \<open>put_object\<close> no more,
  whatever the store answered the first time (after a failed upload the closed buffer makes
  \<open>seek\<close> raise before \<open>put_object\<close>).
\<close>

lemma fl_flush_idem:
  "fl_flush oss' (fst (fl_flush oss u log)) (snd (fl_flush oss u log)) = fl_flush oss u log"
  by (simp add: fl_flush_def put_object_def Let_def split: prod.splits bool.splits)

text \<open>
  The sequential file, one uploader: whatever is written and whatever the store answers,
  the writes and the final \<open>_flush\<close> of the drain call \<open>put_object\<close> exactly once when the
  uploader holds a line, and never otherwise.
\<close>

lemma fl_flush_once:
  "fl_once u log \<Longrightarrow> fl_once (fst (fl_flush oss u log)) (snd (fl_flush oss u log))"
  by (auto simp: fl_once_def fl_flush_def put_object_def Let_def split: prod.splits bool.splits if_splits)

lemma fl_write_once:
  "fl_once u log \<Longrightarrow> fl_once (fst (snd (fl_write oss l u log))) (snd (snd (fl_write oss l u log)))"
  using fl_flush_once [of u log oss]
  by (auto simp: fl_write_def Let_def fl_once_def split: if_splits)

lemma fl_writes_once:
  "fl_once u log \<Longrightarrow> fl_once (fst (fl_writes oss ls u log)) (snd (fl_writes oss ls u log))"
proof (induction ls arbitrary: u log)
  case Nil
  then show ?case by simp
next
  case (Cons l ls)
  from fl_write_once [OF Cons.prems, of oss l]
  show ?case by (auto simp: split_beta intro: Cons.IH)
qed

lemma fl_one_upload:
  assumes "fl_writes oss ls (BufferedUploader p g m d h) [] = (u, log)"
    and "fl_flush oss u log = (u', log')"
  shows "length log' \<le> 1" and "0 < line_count u \<Longrightarrow> length log' = 1"
    and "line_count u = 0 \<Longrightarrow> log' = []"
proof -
  have "fl_once (BufferedUploader p g m d h) []"
    by (simp add: fl_once_def BufferedUploader_def)
  from fl_writes_once [OF this, of oss ls] assms(1)
  have a: "fl_once u log" by simp
  from fl_flush_once [OF a, of oss] assms(2)
  have b: "fl_once u' log'" by simp
  from a b assms(2) show "length log' \<le> 1"
    by (auto simp: fl_once_def split: if_splits)
  from a b assms(2) show "0 < line_count u \<Longrightarrow> length log' = 1"
    by (auto simp: fl_once_def fl_flush_def put_object_def Let_def split: if_splits prod.splits bool.splits)
  from a assms(2) show "line_count u = 0 \<Longrightarrow> log' = []"
    by (auto simp: fl_once_def fl_flush_def split: if_splits)
qed

text \<open>
  Claim C10. In the concurrent file, once an overflow has closed the sink and while the
  \<open>uploaded\<close> flag is still false, a \<open>write\<close> of a line that fits within the budget raises
  \<open>ValueError\<close> from the closed sink; the worker's handler swallows it, and neither the
  uploader nor the pending uploads change.
\<close>

theorem C10_write_raises_while_flushing:
  assumes "gz_closed (upl s)" and "\<not> uploaded (upl s)"
    and "\<not> over_limit (limit_bytes (upl s)) (current_size (upl s) + length (line @ newline))"
  shows "sync_write line (upl s) (pending s) = (Some ValueError, upl s, pending s)
         \<and> sync_step oss s (Write line) = s"
  using assms by (simp add: sync_write_def sync_step_def Let_def)

text \<open>Budget 40 MB: a first line is accepted, a line of 64 MiB overflows and closes the sink,
  the upload has not run yet; the next short line raises.\<close>

theorem C10_write_raises_while_flushing_witness:
  "(case sync_run (\<lambda>n. True) (BufferedUploader ''android'' ''usa'' (Some 40) ''2023-11-14'' ''21'')
          [Write ''USA@2@@d1@@@@@@@@@'', Write big_field] of
      s \<Rightarrow>
        gz_closed (upl s) \<and> \<not> uploaded (upl s) \<and> length (pending s) = 1
        \<and> \<not> over_limit (limit_bytes (upl s)) (current_size (upl s) + length (''USA@2@@d2@@@@@@@@@'' @ newline))
        \<and> sync_write ''USA@2@@d2@@@@@@@@@'' (upl s) (pending s) = (Some ValueError, upl s, pending s)
        \<and> sync_step (\<lambda>n. True) s (Write ''USA@2@@d2@@@@@@@@@'') = s)"
proof -
  let ?s = "sync_run (\<lambda>n. True) (BufferedUploader ''android'' ''usa'' (Some 40) ''2023-11-14'' ''21'')
          [Write ''USA@2@@d1@@@@@@@@@'', Write big_field]"
  have a: "gz_closed (upl ?s)" and b: "\<not> uploaded (upl ?s)" and c: "length (pending ?s) = 1"
    and d: "\<not> over_limit (limit_bytes (upl ?s)) (current_size (upl ?s) + length (''USA@2@@d2@@@@@@@@@'' @ newline))"
    by (simp_all add: sync_run_def sync_step_def sync_write_def sync_submit_upload_def
        BufferedUploader_def over_limit_def newline_def Let_def length_big_field)
  from C10_write_raises_while_flushing [OF a b d, of "\<lambda>n. True"] a b c d
  show ?thesis by simp
qed

text \<open>
  Claim C2 says that the overflow submits the upload at most once for a buffer. The
  concurrent file sets \<open>uploaded\<close> only at the end of \<open>_do_upload\<close>: a second overflowing
  \<open>write\<close> that comes before the first task has run passes the guard of \<open>_submit_upload\<close>
  again. Here two overflowing writes give two \<open>put_object\<close> calls of the same object.
\<close>

theorem C2_overflow_submits_twice:
  "oss_log (sync_run (\<lambda>n. True) (BufferedUploader ''android'' ''usa'' (Some 40) ''2023-11-14'' ''21'')
       [Write ''USA@2@@d1@@@@@@@@@'', Write big_field, Write big_field, UploadDone, UploadDone])
     = [Put ''track/2023-11-14/21/android.usa.log.gz'' [''USA@2@@d1@@@@@@@@@'' @ newline] True,
        Put ''track/2023-11-14/21/android.usa.log.gz'' [''USA@2@@d1@@@@@@@@@'' @ newline] True]"
  by (simp add: sync_run_def sync_step_def sync_write_def sync_submit_upload_def sync_do_upload_def
      put_object_def object_key_def BufferedUploader_def over_limit_def newline_def Let_def
      length_big_field)

text \<open>
  Claim C3 says that a second flush performs no upload handoff. In the concurrent file
  \<open>_submit_upload\<close>, called twice before a task has run, submits twice: the same late
  \<open>uploaded\<close> flag as for claim C2.
\<close>

theorem C3_submit_upload_twice:
  "(case sync_write ''USA@2@@d1@@@@@@@@@''
           (BufferedUploader ''android'' ''usa'' (Some 40) ''2023-11-14'' ''21'') [] of
      (e, u, q) \<Rightarrow>
        (case sync_submit_upload u q of
           (u1, q1) \<Rightarrow>
             (case sync_submit_upload u1 q1 of
                (u2, q2) \<Rightarrow>
                  length q1 = 1 \<and> length q2 = 2 \<and> \<not> uploaded u1 \<and>
                  q2 = [((''android'', ''usa''), [''USA@2@@d1@@@@@@@@@'' @ newline]),
                        ((''android'', ''usa''), [''USA@2@@d1@@@@@@@@@'' @ newline])])))"
  by (simp add: sync_write_def sync_submit_upload_def BufferedUploader_def over_limit_def
      newline_def Let_def)

section \<open>Evaluating the examples\<close>

lemmas str_defs = upper_def lower_def strip_def upper_char_def lower_char_def whitespace_def
  ascii_lowercase_def ascii_uppercase_def

lemmas cos_defs = classify_def get_field_def strip_upper_def strip_lower_def str_defs
  country_2to3_lower_def transform_line_def py_str_def BufferedUploader_def over_limit_def
  newline_def object_key_def put_object_def Let_def

lemmas ex_data_defs = ex_countries_def data_us_def data_big_def data_zz_def data_uk_def data_win_def

lemma ex_loads_simps:
  "ex_loads line_us = Some (JDict data_us)"
  "ex_loads line_big = Some (JDict data_big)"
  "ex_loads line_zz = Some (JDict data_zz)"
  "ex_loads line_uk = Some (JDict data_uk)"
  "ex_loads line_gb = Some (JDict (data_uk(''country_code'' \<mapsto> JStr ''GB'')))"
  "ex_loads line_win = Some (JDict data_win)"
  by (simp_all add: ex_loads_def line_us_def line_big_def line_zz_def line_uk_def line_gb_def line_win_def)

lemma ex_lines_nonempty:
  "line_us \<noteq> []" "line_big \<noteq> []" "line_zz \<noteq> []" "line_uk \<noteq> []" "line_gb \<noteq> []" "line_win \<noteq> []"
  by (simp_all add: line_us_def line_big_def line_zz_def line_uk_def line_gb_def line_win_def)

lemma ex_time:
  "get_time_ranges_for_previous_hour ex_now = (1699995600000000, 1700024400000000)"
  "strftime_Y_m_d 1699995600000000 = ''2023-11-14''"
  "strftime_H 1699995600000000 = ''21''"
  "strftime_Ymd 1700024400000000 = ''20231115''"
  "strftime_H 1700024400000000 = ''05''"
  by code_simp+

section \<open>The end of a run\<close>

text \<open>
  The concurrent file's \<open>process_single_file\<close> starts with
  \<^verbatim>\<open>if all(uploader.uploaded for uploader in uploaders.values()): return\<close>. Uploaders are
  only created further down in the same function, so the dict is empty when the first
  worker starts, \<open>all\<close> of nothing is true, and every worker returns \<open>None\<close> at once: no
  object is read, no uploader is created and nothing is uploaded, for every input; with at
  least one object, \<open>total_lines += future.result()\<close> then raises.
\<close>

lemma sync_download_checked:
  "sync_download (sync_process_single_file loads countries d h) files ([], [])
     = (map (\<lambda>file. None) files, [], [])"
  by (induction files) (simp_all add: sync_process_single_file_def)

lemma sync_main_uploads_nothing:
  "snd (sync_main loads countries oss now_utc files) = ([], [])"
  by (simp add: sync_main_def sync_main_with_def sync_download_checked Let_def split: prod.splits)

lemma sync_total_lines_None:
  "files \<noteq> [] \<Longrightarrow> sync_total_lines (map (\<lambda>file. None) files) = Inl TypeError"
  by (cases files) simp_all

lemma sync_main_TypeError:
  "files \<noteq> [] \<Longrightarrow> fst (sync_main loads countries oss now_utc files) = Inl TypeError"
  by (cases "get_time_ranges_for_previous_hour now_utc")
     (simp add: sync_main_def sync_main_with_def sync_download_checked sync_total_lines_None Let_def)

text \<open>
  Claim C9 says that the uploaded objects are the same with and without the early-exit
  check. For one object of two records of \<open>(android, usa)\<close>, the second overflowing the
  budget, the run without the check uploads the first record; \<open>main\<close> as written uploads
  nothing and ends with \<open>TypeError\<close>.
\<close>

theorem C9_early_exit_changes_result:
  "sync_main ex_loads ex_countries (\<lambda>n. True) ex_now [ [line_us, line_big] ]
     = (Inl TypeError, [], [])
   \<and> fst (sync_main_unchecked ex_loads ex_countries (\<lambda>n. True) ex_now [ [line_us, line_big] ]) = Inr 2
   \<and> snd (snd (sync_main_unchecked ex_loads ex_countries (\<lambda>n. True) ex_now [ [line_us, line_big] ]))
     = [Put ''track/2023-11-14/21/android.usa.log.gz'' [''USA@2@@d1@@@@@@@@@'' @ newline] True]"
  by (simp add: sync_main_def sync_main_unchecked_def sync_main_with_def ex_time
      sync_process_single_file_def sync_process_single_file_unchecked_def sync_process_line_def
      ex_loads_simps ex_lines_nonempty cos_defs ex_data_defs sync_SIZE_LIMITS_MB_def
      sync_get_uploader_def sync_write_def sync_submit_upload_def sync_do_upload_def
      length_big_field)


section \<open>Classification\<close>

lemma ex_lengths:
  "length line_us = 58" "length line_zz = 38" "length line_uk = 58" "length line_gb = 58"
  "length line_win = 60"
  by (simp_all add: line_us_def line_zz_def line_uk_def line_gb_def line_win_def)

lemma o1_group_keeps:
  assumes "loads line = Some (JDict data)" and "o_classify countries data = Inr (Some key)"
  shows "map_of (o1_group loads countries line grouped) key
           = Some ((case map_of grouped key of None \<Rightarrow> [] | Some ls \<Rightarrow> ls) @ [line])"
  using assms by (simp add: o1_group_def update_conv' map_add_def split: option.splits)

lemma o2_append_keeps:
  "map_of (o2_append key line n buffers) key
     = Some (case map_of buffers key of None \<Rightarrow> ([line], n) | Some (ls, cur) \<Rightarrow> (ls @ [line], cur + n))"
  by (simp add: o2_append_def o2_touch_def update_conv' map_add_def split: option.splits)

text \<open>
  Claim C5, as the code has it. A record whose platform (stripped, lower-cased) is neither
  \<open>android\<close> nor \<open>ios\<close> is dropped by all four files: the state is what it was. The two
  \<^verbatim>\<open>cos_*\<close> files also drop a record whose country code (after the \<open>UK\<close> rule) resolves
  to no alpha-3 code, or whose key has no entry in \<open>SIZE_LIMITS_MB\<close>: no uploader is
  created, nothing is written. The two \<^verbatim>\<open>online_*\<close> files keep every record of an accepted
  platform under the key \<open>(platform, geo3)\<close>, with \<open>geo3 = xxx\<close> for an unresolved country;
  \<^verbatim>\<open>online_to_aliyun2.py\<close> appends it without any limit when the key has no entry.
\<close>

theorem C5_dropped_records:
  assumes "loads line = Some (JDict data)"
    and "strip_lower (get_field data ''platform'') = Inr p"
    and "strip_upper (get_field data ''country_code'') = Inr c"
  shows
    "(p \<noteq> ''android'' \<and> p \<noteq> ''ios'' \<longrightarrow>
        fl_process_line loads countries oss d h line st = st
        \<and> sync_process_line loads countries d h line st' = st'
        \<and> o1_group loads countries line grouped = grouped
        \<and> o2_process_line loads countries line buffers = buffers)
     \<and> (country_2to3_lower countries (if c = ''UK'' then ''GB'' else c) = ''xxx'' \<longrightarrow>
        fl_process_line loads countries oss d h line st = st
        \<and> sync_process_line loads countries d h line st' = st')
     \<and> (map_of fl_SIZE_LIMITS_MB (p, country_2to3_lower countries (if c = ''UK'' then ''GB'' else c)) = None \<longrightarrow>
        fl_process_line loads countries oss d h line st = st)
     \<and> (map_of sync_SIZE_LIMITS_MB (p, country_2to3_lower countries (if c = ''UK'' then ''GB'' else c)) = None \<longrightarrow>
        sync_process_line loads countries d h line st' = st')
     \<and> (p = ''android'' \<or> p = ''ios'' \<longrightarrow>
        map_of (o1_group loads countries line grouped) (p, country_2to3_lower countries c)
          = Some ((case map_of grouped (p, country_2to3_lower countries c) of
                     None \<Rightarrow> [] | Some ls \<Rightarrow> ls) @ [line]))
     \<and> ((p = ''android'' \<or> p = ''ios'')
         \<and> map_of o2_SIZE_LIMITS_MB (p, country_2to3_lower countries c) = None \<longrightarrow>
        map_of (o2_process_line loads countries line buffers) (p, country_2to3_lower countries c)
          = Some (case map_of buffers (p, country_2to3_lower countries c) of
                    None \<Rightarrow> ([line], length line + 1)
                  | Some (ls, cur) \<Rightarrow> (ls @ [line], cur + (length line + 1))))"
proof (intro conjI impI)
  assume "p \<noteq> ''android'' \<and> p \<noteq> ''ios''"
  then have c1: "classify countries limits data = Inr None" for limits
    using assms by (simp add: classify_def Let_def)
  from \<open>p \<noteq> ''android'' \<and> p \<noteq> ''ios''\<close> have c2: "o_classify countries data = Inr None"
    using assms by (simp add: o_classify_def)
  show "fl_process_line loads countries oss d h line st = st"
    using assms(1) c1 by (simp add: fl_process_line_def)
  show "sync_process_line loads countries d h line st' = st'"
    using assms(1) c1 by (simp add: sync_process_line_def)
  show "o1_group loads countries line grouped = grouped"
    using assms(1) c2 by (simp add: o1_group_def)
  show "o2_process_line loads countries line buffers = buffers"
    using assms(1) c2 by (simp add: o2_process_line_def)
next
  assume "country_2to3_lower countries (if c = ''UK'' then ''GB'' else c) = ''xxx''"
  then have c1: "classify countries limits data = Inr None" for limits
    using assms by (simp add: classify_def Let_def)
  show "fl_process_line loads countries oss d h line st = st"
    using assms(1) c1 by (simp add: fl_process_line_def)
  show "sync_process_line loads countries d h line st' = st'"
    using assms(1) c1 by (simp add: sync_process_line_def)
next
  assume "map_of fl_SIZE_LIMITS_MB (p, country_2to3_lower countries (if c = ''UK'' then ''GB'' else c)) = None"
  then have "classify countries fl_SIZE_LIMITS_MB data = Inr None"
    using assms by (auto simp: classify_def Let_def)
  then show "fl_process_line loads countries oss d h line st = st"
    using assms(1) by (simp add: fl_process_line_def)
next
  assume "map_of sync_SIZE_LIMITS_MB (p, country_2to3_lower countries (if c = ''UK'' then ''GB'' else c)) = None"
  then have "classify countries sync_SIZE_LIMITS_MB data = Inr None"
    using assms by (auto simp: classify_def Let_def)
  then show "sync_process_line loads countries d h line st' = st'"
    using assms(1) by (simp add: sync_process_line_def)
next
  assume "p = ''android'' \<or> p = ''ios''"
  then have "o_classify countries data = Inr (Some (p, country_2to3_lower countries c))"
    using assms by (auto simp: o_classify_def)
  from o1_group_keeps [where loads = loads and line = line and data = data, OF assms(1) this]
  show "map_of (o1_group loads countries line grouped) (p, country_2to3_lower countries c)
          = Some ((case map_of grouped (p, country_2to3_lower countries c) of
                     None \<Rightarrow> [] | Some ls \<Rightarrow> ls) @ [line])" .
next
  assume a: "(p = ''android'' \<or> p = ''ios'')
         \<and> map_of o2_SIZE_LIMITS_MB (p, country_2to3_lower countries c) = None"
  then have "o_classify countries data = Inr (Some (p, country_2to3_lower countries c))"
    using assms by (auto simp: o_classify_def)
  then show "map_of (o2_process_line loads countries line buffers) (p, country_2to3_lower countries c)
          = Some (case map_of buffers (p, country_2to3_lower countries c) of
                    None \<Rightarrow> ([line], length line + 1)
                  | Some (ls, cur) \<Rightarrow> (ls @ [line], cur + (length line + 1)))"
    using assms(1) a
    by (simp add: o2_process_line_def o2_append_keeps Let_def cong: option.case_cong)
qed

text \<open>A record of platform \<open>windows\<close>, and a record of \<open>ios\<close> with the unknown country
  \<open>ZZ\<close>.\<close>

theorem C5_dropped_records_witness:
  "ex_loads line_win = Some (JDict data_win)
   \<and> strip_lower (get_field data_win ''platform'') = Inr ''windows''
   \<and> strip_upper (get_field data_win ''country_code'') = Inr ''US''
   \<and> fl_process_line ex_loads ex_countries (\<lambda>n. True) ''2023-11-14'' ''21'' line_win ([], []) = ([], [])
   \<and> sync_process_line ex_loads ex_countries ''2023-11-14'' ''21'' line_win ([], [], 0) = ([], [], 0)
   \<and> o1_group ex_loads ex_countries line_win [] = []
   \<and> o2_process_line ex_loads ex_countries line_win [] = []
   \<and> ex_loads line_zz = Some (JDict data_zz)
   \<and> strip_lower (get_field data_zz ''platform'') = Inr ''ios''
   \<and> strip_upper (get_field data_zz ''country_code'') = Inr ''ZZ''
   \<and> country_2to3_lower ex_countries ''ZZ'' = ''xxx''
   \<and> map_of o2_SIZE_LIMITS_MB (''ios'', ''xxx'') = None
   \<and> fl_process_line ex_loads ex_countries (\<lambda>n. True) ''2023-11-14'' ''21'' line_zz ([], []) = ([], [])
   \<and> sync_process_line ex_loads ex_countries ''2023-11-14'' ''21'' line_zz ([], [], 0) = ([], [], 0)
   \<and> map_of (o1_group ex_loads ex_countries line_zz []) (''ios'', ''xxx'') = Some [line_zz]
   \<and> map_of (o2_process_line ex_loads ex_countries line_zz []) (''ios'', ''xxx'') = Some ([line_zz], 39)"
proof -
  have w: "ex_loads line_win = Some (JDict data_win)"
    "strip_lower (get_field data_win ''platform'') = Inr ''windows''"
    "strip_upper (get_field data_win ''country_code'') = Inr ''US''"
    by (simp_all add: ex_loads_simps get_field_def data_win_def strip_lower_def strip_upper_def str_defs)
  have z: "ex_loads line_zz = Some (JDict data_zz)"
    "strip_lower (get_field data_zz ''platform'') = Inr ''ios''"
    "strip_upper (get_field data_zz ''country_code'') = Inr ''ZZ''"
    by (simp_all add: ex_loads_simps get_field_def data_zz_def strip_lower_def strip_upper_def str_defs)
  have x: "country_2to3_lower ex_countries ''ZZ'' = ''xxx''"
    "map_of o2_SIZE_LIMITS_MB (''ios'', ''xxx'') = None"
    by (simp_all add: country_2to3_lower_def ex_countries_def o2_SIZE_LIMITS_MB_def)
  from C5_dropped_records [where loads = ex_loads and line = line_win and data = data_win
      and countries = ex_countries and oss = "\<lambda>n. True" and d = "''2023-11-14''" and h = "''21''"
      and st = "([], [])" and st' = "([], [], 0)" and grouped = "[]" and buffers = "[]", OF w]
    C5_dropped_records [where loads = ex_loads and line = line_zz and data = data_zz
      and countries = ex_countries and oss = "\<lambda>n. True" and d = "''2023-11-14''" and h = "''21''"
      and st = "([], [])" and st' = "([], [], 0)" and grouped = "[]" and buffers = "[]", OF z] w z x
  show ?thesis by (simp add: ex_lengths)
qed

text \<open>
  Claim C5 as stated fails on both \<^verbatim>\<open>online_*\<close> files: the record of \<open>ios\<close> with the
  unresolvable country \<open>ZZ\<close>, whose key \<open>(ios, xxx)\<close> is in no table, gets a group and is
  uploaded.
\<close>

theorem C5_online_files_keep_unresolved:
  "o1_main ex_loads ex_countries (\<lambda>n. True) ex_now [ [line_zz] ]
     = [Put ''tracking-collect-data-test/track/2023-11-14/21/ios.xxx.log.gz'' [line_zz] True]
   \<and> o2_process_line ex_loads ex_countries line_zz [] = [((''ios'', ''xxx''), ([line_zz], 39))]
   \<and> o2_main ex_loads ex_countries (\<lambda>n. True) (ex_now + 8 * hour_us) [ [line_zz] ]
     = [Put ''tracking-collect-data-test/track/2023-11-14/21/ios.xxx.log.gz'' [line_zz] True]"
proof -
  have t: "o2_get_time_ranges_for_previous_hour (ex_now + 8 * hour_us) = (1699995600000000, 1700024400000000)"
    by code_simp
  show ?thesis
    by (simp add: t o2_main_def o1_main_def ex_time ex_lines_nonempty o1_group_def ex_loads_simps
        o_classify_def get_field_def strip_upper_def strip_lower_def str_defs country_2to3_lower_def
        ex_data_defs o1_limit_def o1_SIZE_LIMITS_MB_def sync_SIZE_LIMITS_MB_def o_upload_def
        o2_process_line_def o2_SIZE_LIMITS_MB_def o2_append_def o2_touch_def
        put_object_def ALI_BUCKET_NAME_def newline_def Let_def ex_lengths)
qed

lemma get_field_other:
  "k \<noteq> k' \<Longrightarrow> get_field (data(k' \<mapsto> v)) k = get_field data k"
  by (simp add: get_field_def)

lemma classify_UK_GB:
  "classify countries limits (data(''country_code'' \<mapsto> JStr ''UK''))
     = classify countries limits (data(''country_code'' \<mapsto> JStr ''GB''))"
  by (simp add: classify_def get_field_def strip_upper_def str_defs Let_def)

lemma transform_line_ignores_country:
  "transform_line (data(''country_code'' \<mapsto> v)) g = transform_line data g"
  by (simp add: transform_line_def get_field_other)

text \<open>
  Claim C6, as the code has it. In the two \<^verbatim>\<open>cos_*\<close> files, two records that differ only
  in \<open>country_code\<close>, \<open>UK\<close> for one and \<open>GB\<close> for the other, are classified alike and
  leave the same state: the code \<open>UK\<close> is rewritten to \<open>GB\<close> before the look-up.
\<close>

theorem C6_cos_files_rewrite_UK:
  assumes "loads line1 = Some (JDict (data(''country_code'' \<mapsto> JStr ''UK'')))"
    and "loads line2 = Some (JDict (data(''country_code'' \<mapsto> JStr ''GB'')))"
    and "line1 \<noteq> []" and "line2 \<noteq> []"
  shows "classify countries limits (data(''country_code'' \<mapsto> JStr ''UK''))
           = classify countries limits (data(''country_code'' \<mapsto> JStr ''GB''))
         \<and> fl_process_line loads countries oss d h line1 st
           = fl_process_line loads countries oss d h line2 st
         \<and> sync_process_line loads countries d h line1 st'
           = sync_process_line loads countries d h line2 st'"
  using assms
  by (simp add: fl_process_line_def sync_process_line_def classify_UK_GB
      transform_line_ignores_country cong: sum.case_cong option.case_cong prod.case_cong)

lemma data_uk_UK: "data_uk(''country_code'' \<mapsto> JStr ''UK'') = data_uk"
  by (rule ext) (simp add: data_uk_def)

theorem C6_cos_files_rewrite_UK_witness:
  "ex_loads line_uk = Some (JDict (data_uk(''country_code'' \<mapsto> JStr ''UK'')))
   \<and> ex_loads line_gb = Some (JDict (data_uk(''country_code'' \<mapsto> JStr ''GB'')))
   \<and> line_uk \<noteq> [] \<and> line_gb \<noteq> [] \<and> line_uk \<noteq> line_gb
   \<and> classify ex_countries fl_SIZE_LIMITS_MB (data_uk(''country_code'' \<mapsto> JStr ''UK''))
       = Inr (Some (''android'', ''gbr''))
   \<and> fl_process_line ex_loads ex_countries (\<lambda>n. True) ''2023-11-14'' ''21'' line_uk ([], [])
       = fl_process_line ex_loads ex_countries (\<lambda>n. True) ''2023-11-14'' ''21'' line_gb ([], [])
   \<and> sync_process_line ex_loads ex_countries ''2023-11-14'' ''21'' line_uk ([], [], 0)
       = sync_process_line ex_loads ex_countries ''2023-11-14'' ''21'' line_gb ([], [], 0)"
proof -
  have a: "ex_loads line_uk = Some (JDict (data_uk(''country_code'' \<mapsto> JStr ''UK'')))"
    by (simp add: ex_loads_simps data_uk_UK)
  have b: "ex_loads line_gb = Some (JDict (data_uk(''country_code'' \<mapsto> JStr ''GB'')))"
    by (simp add: ex_loads_simps)
  have c: "line_uk \<noteq> []" "line_gb \<noteq> []" by (simp_all add: ex_lines_nonempty)
  have d: "line_uk \<noteq> line_gb" by (simp add: line_uk_def line_gb_def)
  have e: "classify ex_countries fl_SIZE_LIMITS_MB (data_uk(''country_code'' \<mapsto> JStr ''UK''))
       = Inr (Some (''android'', ''gbr''))"
    by (simp add: data_uk_UK classify_def data_uk_def get_field_def strip_upper_def strip_lower_def
        str_defs ex_countries_def country_2to3_lower_def fl_SIZE_LIMITS_MB_def)
  from C6_cos_files_rewrite_UK [OF a b c, of ex_countries fl_SIZE_LIMITS_MB "\<lambda>n. True"
      "''2023-11-14''" "''21''" "([], [])" "([], [], 0)"] a b c d e
  show ?thesis by simp
qed

text \<open>
  Claim C6 as stated ("in every ingestion path") fails on \<^verbatim>\<open>online_to_aliyun.py\<close>, which
  has no such rule: the record with \<open>UK\<close> goes to \<open>android.xxx\<close>, the one with \<open>GB\<close> to
  \<open>android.gbr\<close>.
\<close>

theorem C6_online_files_keep_UK:
  "map put_key (o1_main ex_loads ex_countries (\<lambda>n. True) ex_now [ [line_uk] ])
     = [''tracking-collect-data-test/track/2023-11-14/21/android.xxx.log.gz'']
   \<and> map put_key (o1_main ex_loads ex_countries (\<lambda>n. True) ex_now [ [line_gb] ])
     = [''tracking-collect-data-test/track/2023-11-14/21/android.gbr.log.gz'']"
  by (simp add: o1_main_def ex_time ex_lines_nonempty o1_group_def ex_loads_simps o_classify_def
      get_field_def strip_upper_def strip_lower_def str_defs country_2to3_lower_def
      ex_data_defs o1_limit_def o1_SIZE_LIMITS_MB_def sync_SIZE_LIMITS_MB_def o_upload_def
      put_object_def ALI_BUCKET_NAME_def newline_def Let_def ex_lengths)

section \<open>What is uploaded, and where\<close>


lemma log_ok_snoc:
  "log_ok K P d h log \<Longrightarrow> K k \<Longrightarrow> key = track_key d h k \<Longrightarrow> \<forall>c \<in> set body. P k c
     \<Longrightarrow> log_ok K P d h (log @ [Put key body ok])"
  unfolding log_ok_def by (cases k) fastforce

lemma fl_flush_ok:
  assumes "uploader_ok K P d h k u" and "log_ok K P d h log"
  shows "uploader_ok K P d h k (fst (fl_flush oss u log)) \<and> log_ok K P d h (snd (fl_flush oss u log))"
proof -
  have key: "object_key (u\<lparr>gz_closed := True\<rparr>) = track_key d h k"
    using assms(1) by (simp add: uploader_ok_def object_key_def track_key_def)
  have body: "\<forall>c \<in> set (gz_data u). P k c"
    using assms(1) by (simp add: uploader_ok_def)
  have "log_ok K P d h (log @ [Put (object_key (u\<lparr>gz_closed := True\<rparr>)) (gz_data u) ok])" for ok
    using assms(1) by (intro log_ok_snoc [OF assms(2) _ key body]) (simp add: uploader_ok_def)
  then show ?thesis
    using assms
    by (simp add: fl_flush_def put_object_def Let_def uploader_ok_def
        split: prod.splits bool.splits)
qed

lemma fl_write_ok:
  assumes "uploader_ok K P d h k u" and "log_ok K P d h log" and "P k (line @ newline)"
  shows "uploader_ok K P d h k (fst (snd (fl_write oss line u log)))
         \<and> log_ok K P d h (snd (snd (fl_write oss line u log)))"
  using assms fl_flush_ok [OF assms(1,2), of oss]
  by (auto simp: fl_write_def Let_def uploader_ok_def)

lemma registry_ok_update:
  "registry_ok K P d h uploaders \<Longrightarrow> uploader_ok K P d h k u
     \<Longrightarrow> registry_ok K P d h (AList.update k u uploaders)"
  by (induction uploaders) (auto simp: registry_ok_def)

lemma registry_ok_lookup:
  "registry_ok K P d h uploaders \<Longrightarrow> map_of uploaders k = Some u \<Longrightarrow> uploader_ok K P d h k u"
  by (auto simp: registry_ok_def dest: map_of_SomeD)

lemma registry_ok_snoc:
  "registry_ok K P d h uploaders \<Longrightarrow> uploader_ok K P d h k u
     \<Longrightarrow> registry_ok K P d h (uploaders @ [(k, u)])"
  by (simp add: registry_ok_def)

lemma uploader_ok_fresh:
  "K k \<Longrightarrow> uploader_ok K P d h k (BufferedUploader (fst k) (snd k) m d h)"
  by (simp add: uploader_ok_def BufferedUploader_def)

lemma fl_get_uploader_ok:
  assumes "registry_ok K P d h uploaders" and "fl_get_uploader d h k uploaders = Inr (uploaders', u)"
    and "K k"
  shows "registry_ok K P d h uploaders' \<and> uploader_ok K P d h k u"
proof (cases "map_of uploaders k")
  case None
  with assms(2) obtain m where
    "u = BufferedUploader (fst k) (snd k) (Some (m * 5)) d h" "uploaders' = uploaders @ [(k, u)]"
    by (auto simp: fl_get_uploader_def Let_def split: option.splits)
  then show ?thesis
    using registry_ok_snoc [OF assms(1), of k u] uploader_ok_fresh [where K = K and k = k and P = P and d = d and h = h, OF assms(3)] by simp
next
  case (Some v)
  with assms(2) have "u = v" "uploaders' = uploaders"
    by (simp_all add: fl_get_uploader_def)
  then show ?thesis
    using assms(1) registry_ok_lookup [OF assms(1) Some] by simp
qed

lemma fl_process_line_ok:
  assumes "registry_ok K P d h (fst st)" and "log_ok K P d h (snd st)"
    and "\<And>data key. loads line = Some (JDict data)
           \<Longrightarrow> classify countries fl_SIZE_LIMITS_MB data = Inr (Some key)
           \<Longrightarrow> K key \<and> P key (transform_line data (snd key) @ newline)"
  shows "registry_ok K P d h (fst (fl_process_line loads countries oss d h line st))
         \<and> log_ok K P d h (snd (fl_process_line loads countries oss d h line st))"
proof (cases "line \<noteq> [] \<and> (\<exists>data key uploaders' u. loads line = Some (JDict data)
          \<and> classify countries fl_SIZE_LIMITS_MB data = Inr (Some key)
          \<and> fl_get_uploader d h key (fst st) = Inr (uploaders', u))")
  case True
  then obtain data key uploaders' u where l: "line \<noteq> []" "loads line = Some (JDict data)"
    and c: "classify countries fl_SIZE_LIMITS_MB data = Inr (Some key)"
    and g: "fl_get_uploader d h key (fst st) = Inr (uploaders', u)" by blast
  from assms(3) [OF l(2) c] have kp: "K key" "P key (transform_line data (snd key) @ newline)"
    by simp_all
  from fl_get_uploader_ok [OF assms(1) g kp(1)]
  have r: "registry_ok K P d h uploaders'" and u: "uploader_ok K P d h key u" by simp_all
  let ?w = "fl_write oss (transform_line data (snd key)) u (snd st)"
  from fl_write_ok [OF u assms(2) kp(2), of oss]
  have w: "uploader_ok K P d h key (fst (snd ?w))" "log_ok K P d h (snd (snd ?w))" by simp_all
  have "fl_process_line loads countries oss d h line st
          = (AList.update key (fst (snd ?w)) uploaders', snd (snd ?w))"
    using l c g by (simp add: fl_process_line_def split: prod.splits)
  then show ?thesis using registry_ok_update [OF r w(1)] w(2) by simp
next
  case False
  then have "fl_process_line loads countries oss d h line st = st"
    by (auto simp: fl_process_line_def split: option.splits json.splits sum.splits prod.splits)
  then show ?thesis using assms(1,2) by simp
qed

lemma fl_file_ok:
  assumes "\<forall>line \<in> set obj. \<forall>data key. loads line = Some (JDict data)
           \<longrightarrow> classify countries fl_SIZE_LIMITS_MB data = Inr (Some key)
           \<longrightarrow> K key \<and> P key (transform_line data (snd key) @ newline)"
    and "registry_ok K P d h (fst st)" and "log_ok K P d h (snd st)"
  shows "registry_ok K P d h (fst (fold (fl_process_line loads countries oss d h) obj st))
         \<and> log_ok K P d h (snd (fold (fl_process_line loads countries oss d h) obj st))"
  using assms
proof (induction obj arbitrary: st)
  case Nil
  then show ?case by simp
next
  case (Cons line obj)
  have step: "registry_ok K P d h (fst (fl_process_line loads countries oss d h line st))
         \<and> log_ok K P d h (snd (fl_process_line loads countries oss d h line st))"
    using Cons.prems(1) by (intro fl_process_line_ok [OF Cons.prems(2,3)]) auto
  have rest: "\<forall>line \<in> set obj. \<forall>data key. loads line = Some (JDict data)
           \<longrightarrow> classify countries fl_SIZE_LIMITS_MB data = Inr (Some key)
           \<longrightarrow> K key \<and> P key (transform_line data (snd key) @ newline)"
    using Cons.prems(1) by simp
  from Cons.IH [OF rest, of "fl_process_line loads countries oss d h line st"] step
  show ?case by simp
qed

lemma fl_files_ok:
  assumes "\<forall>obj \<in> set files. \<forall>line \<in> set obj. \<forall>data key. loads line = Some (JDict data)
           \<longrightarrow> classify countries fl_SIZE_LIMITS_MB data = Inr (Some key)
           \<longrightarrow> K key \<and> P key (transform_line data (snd key) @ newline)"
    and "registry_ok K P d h (fst st)" and "log_ok K P d h (snd st)"
  shows "registry_ok K P d h (fst (fold (fold (fl_process_line loads countries oss d h)) files st))
         \<and> log_ok K P d h (snd (fold (fold (fl_process_line loads countries oss d h)) files st))"
  using assms
proof (induction files arbitrary: st)
  case Nil
  then show ?case by simp
next
  case (Cons obj files)
  have this_obj: "\<forall>line \<in> set obj. \<forall>data key. loads line = Some (JDict data)
           \<longrightarrow> classify countries fl_SIZE_LIMITS_MB data = Inr (Some key)
           \<longrightarrow> K key \<and> P key (transform_line data (snd key) @ newline)"
    using Cons.prems(1) by simp
  have rest: "\<forall>obj \<in> set files. \<forall>line \<in> set obj. \<forall>data key. loads line = Some (JDict data)
           \<longrightarrow> classify countries fl_SIZE_LIMITS_MB data = Inr (Some key)
           \<longrightarrow> K key \<and> P key (transform_line data (snd key) @ newline)"
    using Cons.prems(1) by simp
  from fl_file_ok [OF this_obj Cons.prems(2,3), of oss]
  have step: "registry_ok K P d h (fst (fold (fl_process_line loads countries oss d h) obj st))"
    "log_ok K P d h (snd (fold (fl_process_line loads countries oss d h) obj st))" by simp_all
  from Cons.IH [OF rest step] show ?case by simp
qed

lemma fl_drain_ok:
  "registry_ok K P d h uploaders \<Longrightarrow> log_ok K P d h log
     \<Longrightarrow> registry_ok K P d h (fst (fl_drain oss uploaders log)) \<and> log_ok K P d h (snd (fl_drain oss uploaders log))"
proof (induction uploaders arbitrary: log)
  case Nil
  then show ?case by simp
next
  case (Cons ku uploaders)
  obtain k u where ku: "ku = (k, u)" by (cases ku)
  from Cons.prems have u: "uploader_ok K P d h k u" and r: "registry_ok K P d h uploaders"
    by (simp_all add: registry_ok_def ku)
  from fl_flush_ok [OF u Cons.prems(2), of oss]
  have f: "uploader_ok K P d h k (fst (fl_flush oss u log))" "log_ok K P d h (snd (fl_flush oss u log))"
    by simp_all
  from Cons.IH [OF r f(2)] f(1) show ?case
    by (simp add: ku registry_ok_def split_beta)
qed

lemma transform_line_output:
  "transform_line data g =
     output_line g (if get_field data ''platform'' = JStr ''ios'' then ''1''
                    else if get_field data ''platform'' = JStr ''android'' then ''2'' else ''0'') data"
  by (simp add: transform_line_def output_line_def Let_def)

lemma transform_line_from_input:
  assumes "record_of_input loads countries limits files key data"
  shows "from_input loads countries limits files key (transform_line data (snd key) @ newline)"
  unfolding from_input_def
proof (intro exI conjI)
  show "record_of_input loads countries limits files key data" by (rule assms)
  show "transform_line data (snd key) @ newline
          = output_line (snd key) (if get_field data ''platform'' = JStr ''ios'' then ''1''
                    else if get_field data ''platform'' = JStr ''android'' then ''2'' else ''0'') data
            @ newline"
    by (simp add: transform_line_output)
  show "get_field data ''platform'' = JStr (fst key) \<longrightarrow>
          (if get_field data ''platform'' = JStr ''ios'' then ''1''
           else if get_field data ''platform'' = JStr ''android'' then ''2'' else ''0'')
            = platform_code (fst key)"
    by (auto simp: platform_code_def)
qed

lemma fl_main_ok:
  assumes "get_time_ranges_for_previous_hour now_utc = (utc0, utc8)"
  shows "registry_ok (\<lambda>k. \<exists>data. record_of_input loads countries fl_SIZE_LIMITS_MB files k data)
           (from_input loads countries fl_SIZE_LIMITS_MB files)
           (strftime_Y_m_d utc0) (strftime_H utc0)
           (fst (fl_main loads countries oss now_utc files))
         \<and> log_ok (\<lambda>k. \<exists>data. record_of_input loads countries fl_SIZE_LIMITS_MB files k data)
           (from_input loads countries fl_SIZE_LIMITS_MB files)
           (strftime_Y_m_d utc0) (strftime_H utc0)
           (snd (fl_main loads countries oss now_utc files))"
proof -
  let ?K = "\<lambda>k. \<exists>data. record_of_input loads countries fl_SIZE_LIMITS_MB files k data"
  let ?P = "from_input loads countries fl_SIZE_LIMITS_MB files"
  let ?d = "strftime_Y_m_d utc0" and ?h = "strftime_H utc0"
  let ?st = "fold (fold (fl_process_line loads countries oss ?d ?h)) files ([], [])"
  have rec: "\<forall>obj \<in> set files. \<forall>line \<in> set obj. \<forall>data key. loads line = Some (JDict data)
           \<longrightarrow> classify countries fl_SIZE_LIMITS_MB data = Inr (Some key)
           \<longrightarrow> ?K key \<and> ?P key (transform_line data (snd key) @ newline)"
  proof (intro ballI allI impI)
    fix obj line data key
    assume "obj \<in> set files" "line \<in> set obj" "loads line = Some (JDict data)"
      "classify countries fl_SIZE_LIMITS_MB data = Inr (Some key)"
    then have r: "record_of_input loads countries fl_SIZE_LIMITS_MB files key data"
      unfolding record_of_input_def by blast
    from r transform_line_from_input [OF r]
    show "?K key \<and> ?P key (transform_line data (snd key) @ newline)" by blast
  qed
  have "registry_ok ?K ?P ?d ?h (fst ?st) \<and> log_ok ?K ?P ?d ?h (snd ?st)"
    by (rule fl_files_ok [OF rec]) (simp_all add: registry_ok_def log_ok_def)
  then have "registry_ok ?K ?P ?d ?h (fst (fl_drain oss (fst ?st) (snd ?st)))
       \<and> log_ok ?K ?P ?d ?h (snd (fl_drain oss (fst ?st) (snd ?st)))"
    using fl_drain_ok by blast
  then show ?thesis
    by (simp add: fl_main_def assms Let_def split_beta)
qed

text \<open>The concurrent file, one uploader under any interleaving of writes and upload
  completions: every call uses the uploader's key and carries lines written to it.\<close>

lemma sync_step_puts_ok:
  assumes "sync_puts_ok W K s" and "\<And>l. e = Write l \<Longrightarrow> l @ newline \<in> W"
  shows "sync_puts_ok W K (sync_step oss s e)"
proof (cases e)
  case (Write l)
  with assms show ?thesis
    by (auto simp: sync_puts_ok_def sync_step_def sync_write_def sync_submit_upload_def Let_def
        object_key_def split: if_splits)
next
  case UploadDone
  with assms(1) show ?thesis
    by (auto simp: sync_puts_ok_def sync_step_def sync_do_upload_def put_object_def object_key_def
        split: list.splits)
qed

lemma sync_foldl_puts_ok:
  "sync_puts_ok W K s \<Longrightarrow> \<forall>l. Write l \<in> set evs \<longrightarrow> l @ newline \<in> W
     \<Longrightarrow> sync_puts_ok W K (foldl (sync_step oss) s evs)"
proof (induction evs arbitrary: s)
  case Nil
  then show ?case by simp
next
  case (Cons e evs)
  have "sync_puts_ok W K (sync_step oss s e)"
    using Cons.prems by (intro sync_step_puts_ok) auto
  with Cons show ?case by simp
qed

lemma sync_run_puts:
  "\<forall>put \<in> set (oss_log (sync_run oss (BufferedUploader p g m d h) evs)).
      put_key put = track_key d h (p, g)
      \<and> (\<forall>c \<in> set (put_body put). \<exists>l. Write l \<in> set evs \<and> c = l @ newline)"
proof -
  let ?W = "{c. \<exists>l. Write l \<in> set evs \<and> c = l @ newline}"
  have "sync_puts_ok ?W (track_key d h (p, g))
          (foldl (sync_step oss) \<lparr>upl = BufferedUploader p g m d h, pending = [], oss_log = []\<rparr> evs)"
    by (rule sync_foldl_puts_ok)
       (auto simp: sync_puts_ok_def BufferedUploader_def object_key_def track_key_def)
  then show ?thesis
    by (auto simp: sync_puts_ok_def sync_run_def)
qed


















lemma transform_line_codes:
  "get_field data ''platform'' = JStr ''android'' \<Longrightarrow> transform_line data g = output_line g ''2'' data"
  "get_field data ''platform'' = JStr ''ios'' \<Longrightarrow> transform_line data g = output_line g ''1'' data"
  "strip_lower (get_field data ''platform'') \<noteq> Inr ''android''
     \<Longrightarrow> strip_lower (get_field data ''platform'') \<noteq> Inr ''ios''
     \<Longrightarrow> transform_line data g = output_line g ''0'' data"
  by (auto simp: transform_line_output strip_lower_def str_defs)

lemma upper_usa: "upper ''usa'' = ''USA''"
  by (simp add: str_defs)

lemma classify_android_US:
  assumes "data ''platform'' = Some (JStr ''android'')"
    and "data ''country_code'' = Some (JStr ''US'')"
    and "countries ''US'' = Some ''USA''"
  shows "classify countries fl_SIZE_LIMITS_MB data = Inr (Some (''android'', ''usa''))"
    and "classify countries sync_SIZE_LIMITS_MB data = Inr (Some (''android'', ''usa''))"
    and "take 6 (transform_line data ''usa'') = ''USA@2@''"
  using assms
  by (simp_all add: classify_def get_field_def strip_upper_def strip_lower_def str_defs
      country_2to3_lower_def fl_SIZE_LIMITS_MB_def sync_SIZE_LIMITS_MB_def transform_line_output
      output_line_def)

lemma fl_main_chunks:
  "\<forall>put \<in> set (snd (fl_main loads countries oss now_utc files)).
     \<forall>c \<in> set (put_body put).
       \<exists>obj \<in> set files. \<exists>line \<in> set obj. \<exists>data key code.
         loads line = Some (JDict data)
         \<and> classify countries fl_SIZE_LIMITS_MB data = Inr (Some key)
         \<and> c = output_line (snd key) code data @ newline
         \<and> (get_field data ''platform'' = JStr (fst key) \<longrightarrow> code = platform_code (fst key))"
proof (intro ballI)
  fix put c
  assume p: "put \<in> set (snd (fl_main loads countries oss now_utc files))"
    and c: "c \<in> set (put_body put)"
  obtain utc0 utc8 where t: "get_time_ranges_for_previous_hour now_utc = (utc0, utc8)"
    by (cases "get_time_ranges_for_previous_hour now_utc")
  from fl_main_ok [OF t, of loads countries files oss] p c
  obtain k where "from_input loads countries fl_SIZE_LIMITS_MB files k c"
    unfolding log_ok_def by blast
  then show "\<exists>obj \<in> set files. \<exists>line \<in> set obj. \<exists>data key code.
         loads line = Some (JDict data)
         \<and> classify countries fl_SIZE_LIMITS_MB data = Inr (Some key)
         \<and> c = output_line (snd key) code data @ newline
         \<and> (get_field data ''platform'' = JStr (fst key) \<longrightarrow> code = platform_code (fst key))"
    unfolding from_input_def record_of_input_def by blast
qed

lemma sync_process_line_writes:
  assumes "line \<noteq> []" and "loads line = Some (JDict data)"
    and "classify countries sync_SIZE_LIMITS_MB data = Inr (Some key)"
  shows "\<exists>code.
           (get_field data ''platform'' = JStr (fst key) \<longrightarrow> code = platform_code (fst key))
           \<and> sync_process_line loads countries d h line (uploaders, tasks, n) =
               (case sync_get_uploader d h key uploaders of
                  (uploaders', u) \<Rightarrow>
                    (case sync_write (output_line (snd key) code data) u tasks of
                       (None, u', tasks') \<Rightarrow> (AList.update key u' uploaders', tasks', n + 1)
                     | (Some e, u', tasks') \<Rightarrow> (AList.update key u' uploaders', tasks', n)))"
proof (intro exI conjI)
  show "get_field data ''platform'' = JStr (fst key) \<longrightarrow>
          (if get_field data ''platform'' = JStr ''ios'' then ''1''
           else if get_field data ''platform'' = JStr ''android'' then ''2'' else ''0'')
            = platform_code (fst key)"
    by (auto simp: platform_code_def)
  show "sync_process_line loads countries d h line (uploaders, tasks, n) =
               (case sync_get_uploader d h key uploaders of
                  (uploaders', u) \<Rightarrow>
                    (case sync_write (output_line (snd key)
                            (if get_field data ''platform'' = JStr ''ios'' then ''1''
                             else if get_field data ''platform'' = JStr ''android'' then ''2'' else ''0'')
                            data) u tasks of
                       (None, u', tasks') \<Rightarrow> (AList.update key u' uploaders', tasks', n + 1)
                     | (Some e, u', tasks') \<Rightarrow> (AList.update key u' uploaders', tasks', n)))"
    using assms by (simp add: sync_process_line_def transform_line_output [symmetric])
qed

lemma transform_line_raw_platform:
  "get_field data ''platform'' = JStr ''Android'' \<Longrightarrow>
     strip_lower (get_field data ''platform'') = Inr ''android''
     \<and> transform_line data g = output_line g ''0'' data"
  by (simp add: transform_line_output strip_lower_def str_defs)

text \<open>
  Claim C7, as the code has it. In the two \<^verbatim>\<open>cos_*\<close> files the line of a record is
  \<open>COUNTRY3_UPPER@PLATFORM_CODE@displayManager@deviceId@brand@userAgent@ip@language@\<close>
  \<open>timestamp@osVersion@appId@model@networkType\<close>, with platform code \<open>2\<close> for a record whose
  platform field is \<open>android\<close>, \<open>1\<close> for one whose platform field is \<open>ios\<close>, and \<open>0\<close> for a
  platform that is neither after stripping and lower-casing; for platform \<open>android\<close> and
  country \<open>US\<close> the line begins with \<open>USA@2@\<close>. In the sequential file every chunk of every
  uploaded object is such a line, newline-terminated, of a record of the input classified
  to a key, with the platform code of that key when the record's platform field is written
  as in the key. In the concurrent file the line handed to \<open>write\<close> is such a line, and what
  an uploader uploads consists of lines written to it, each with its newline. Nothing is
  said of the platform code of a record whose platform field differs from its normalised
  form.
\<close>

theorem C7_cos_lines_are_serialized:
  "(get_field data ''platform'' = JStr ''android'' \<longrightarrow> transform_line data g = output_line g ''2'' data)
   \<and> (get_field data ''platform'' = JStr ''ios'' \<longrightarrow> transform_line data g = output_line g ''1'' data)
   \<and> (strip_lower (get_field data ''platform'') \<noteq> Inr ''android''
        \<and> strip_lower (get_field data ''platform'') \<noteq> Inr ''ios'' \<longrightarrow>
        transform_line data g = output_line g ''0'' data)
   \<and> output_line g code data =
        upper g @ ''@'' @ code @ ''@''
        @ py_str (get_field data ''display_manager'') @ ''@''
        @ py_str (get_field data ''deviceId'') @ ''@''
        @ py_str (get_field data ''brand'') @ ''@''
        @ py_str (get_field data ''user_agent'') @ ''@''
        @ py_str (get_field data ''ip'') @ ''@''
        @ py_str (get_field data ''language'') @ ''@''
        @ py_str (get_field data ''timestamp'') @ ''@''
        @ py_str (get_field data ''os_version'') @ ''@''
        @ py_str (get_field data ''app_id'') @ ''@''
        @ py_str (get_field data ''model'') @ ''@''
        @ py_str (get_field data ''network_type'')
   \<and> (data ''platform'' = Some (JStr ''android'') \<and> data ''country_code'' = Some (JStr ''US'')
        \<and> countries ''US'' = Some ''USA'' \<longrightarrow>
        classify countries fl_SIZE_LIMITS_MB data = Inr (Some (''android'', ''usa''))
        \<and> classify countries sync_SIZE_LIMITS_MB data = Inr (Some (''android'', ''usa''))
        \<and> take 6 (transform_line data ''usa'') = ''USA@2@'')
   \<and> (\<forall>put \<in> set (snd (fl_main loads countries oss now_utc files)).
        \<forall>c \<in> set (put_body put).
          \<exists>obj \<in> set files. \<exists>line \<in> set obj. \<exists>data' key' code'.
            loads line = Some (JDict data')
            \<and> classify countries fl_SIZE_LIMITS_MB data' = Inr (Some key')
            \<and> c = output_line (snd key') code' data' @ newline
            \<and> (get_field data' ''platform'' = JStr (fst key') \<longrightarrow> code' = platform_code (fst key')))
   \<and> (line \<noteq> [] \<and> loads line = Some (JDict data)
        \<and> classify countries sync_SIZE_LIMITS_MB data = Inr (Some key) \<longrightarrow>
        (\<exists>code'.
           (get_field data ''platform'' = JStr (fst key) \<longrightarrow> code' = platform_code (fst key))
           \<and> sync_process_line loads countries d h line (uploaders, tasks, n) =
               (case sync_get_uploader d h key uploaders of
                  (uploaders', u) \<Rightarrow>
                    (case sync_write (output_line (snd key) code' data) u tasks of
                       (None, u', tasks') \<Rightarrow> (AList.update key u' uploaders', tasks', n + 1)
                     | (Some e, u', tasks') \<Rightarrow> (AList.update key u' uploaders', tasks', n)))))
   \<and> (\<forall>put \<in> set (oss_log (sync_run oss (BufferedUploader p g' m d h) evs)).
        \<forall>c \<in> set (put_body put). \<exists>l. Write l \<in> set evs \<and> c = l @ newline)"
proof -
  have a: "get_field data ''platform'' = JStr ''android'' \<longrightarrow> transform_line data g = output_line g ''2'' data"
    and b: "get_field data ''platform'' = JStr ''ios'' \<longrightarrow> transform_line data g = output_line g ''1'' data"
    and c: "strip_lower (get_field data ''platform'') \<noteq> Inr ''android''
        \<and> strip_lower (get_field data ''platform'') \<noteq> Inr ''ios'' \<longrightarrow>
        transform_line data g = output_line g ''0'' data"
    using transform_line_codes [of data g] by blast+
  note f = output_line_def [of g code data]
  have us: "data ''platform'' = Some (JStr ''android'') \<and> data ''country_code'' = Some (JStr ''US'')
        \<and> countries ''US'' = Some ''USA'' \<longrightarrow>
        classify countries fl_SIZE_LIMITS_MB data = Inr (Some (''android'', ''usa''))
        \<and> classify countries sync_SIZE_LIMITS_MB data = Inr (Some (''android'', ''usa''))
        \<and> take 6 (transform_line data ''usa'') = ''USA@2@''"
    using classify_android_US [of data countries] by blast
  note fl = fl_main_chunks [of loads countries oss now_utc files]
  have sy: "line \<noteq> [] \<and> loads line = Some (JDict data)
        \<and> classify countries sync_SIZE_LIMITS_MB data = Inr (Some key) \<longrightarrow>
        (\<exists>code'.
           (get_field data ''platform'' = JStr (fst key) \<longrightarrow> code' = platform_code (fst key))
           \<and> sync_process_line loads countries d h line (uploaders, tasks, n) =
               (case sync_get_uploader d h key uploaders of
                  (uploaders', u) \<Rightarrow>
                    (case sync_write (output_line (snd key) code' data) u tasks of
                       (None, u', tasks') \<Rightarrow> (AList.update key u' uploaders', tasks', n + 1)
                     | (Some e, u', tasks') \<Rightarrow> (AList.update key u' uploaders', tasks', n))))"
    using sync_process_line_writes [where loads = loads and line = line and data = data
        and countries = countries and key = key and d = d and h = h and uploaders = uploaders
        and tasks = tasks and n = n]
    by blast
  have e: "\<forall>put \<in> set (oss_log (sync_run oss (BufferedUploader p g' m d h) evs)).
        \<forall>c \<in> set (put_body put). \<exists>l. Write l \<in> set evs \<and> c = l @ newline"
    using sync_run_puts [of oss p g' m d h evs] by blast
  show ?thesis by (intro conjI a b c f us fl sy e)
qed

text \<open>One record of \<open>android\<close>, \<open>US\<close>, device \<open>d1\<close>.\<close>

theorem C7_cos_lines_are_serialized_witness:
  "get_field data_us ''platform'' = JStr ''android''
   \<and> data_us ''platform'' = Some (JStr ''android'') \<and> data_us ''country_code'' = Some (JStr ''US'')
   \<and> ex_countries ''US'' = Some ''USA''
   \<and> line_us \<noteq> [] \<and> ex_loads line_us = Some (JDict data_us)
   \<and> classify ex_countries fl_SIZE_LIMITS_MB data_us = Inr (Some (''android'', ''usa''))
   \<and> classify ex_countries sync_SIZE_LIMITS_MB data_us = Inr (Some (''android'', ''usa''))
   \<and> take 6 (transform_line data_us ''usa'') = ''USA@2@''
   \<and> transform_line data_us ''usa'' = output_line ''usa'' ''2'' data_us
   \<and> output_line ''usa'' ''2'' data_us = ''USA@2@@d1@@@@@@@@@''
   \<and> snd (fl_main ex_loads ex_countries (\<lambda>n. True) ex_now [ [line_us] ])
       = [Put ''track/2023-11-14/21/android.usa.log.gz'' [''USA@2@@d1@@@@@@@@@'' @ newline] True]
   \<and> oss_log (sync_run (\<lambda>n. True) (BufferedUploader ''android'' ''usa'' (Some 40) ''2023-11-14'' ''21'')
         [Write ''USA@2@@d1@@@@@@@@@'', Write big_field, UploadDone])
       = [Put ''track/2023-11-14/21/android.usa.log.gz'' [''USA@2@@d1@@@@@@@@@'' @ newline] True]"
proof -
  have h: "data_us ''platform'' = Some (JStr ''android'') \<and> data_us ''country_code'' = Some (JStr ''US'')
     \<and> ex_countries ''US'' = Some ''USA''"
    by (simp add: data_us_def ex_countries_def)
  have h2: "get_field data_us ''platform'' = JStr ''android''"
    by (simp add: data_us_def get_field_def)
  note inst = C7_cos_lines_are_serialized [where data = data_us and countries = ex_countries
      and g = "''usa''"]
  from inst h
  have k: "classify ex_countries fl_SIZE_LIMITS_MB data_us = Inr (Some (''android'', ''usa''))
     \<and> classify ex_countries sync_SIZE_LIMITS_MB data_us = Inr (Some (''android'', ''usa''))
     \<and> take 6 (transform_line data_us ''usa'') = ''USA@2@''"
    by blast
  from inst h2
  have t: "transform_line data_us ''usa'' = output_line ''usa'' ''2'' data_us"
    by blast
  have o: "output_line ''usa'' ''2'' data_us = ''USA@2@@d1@@@@@@@@@''"
    by (simp add: output_line_def data_us_def get_field_def py_str_def str_defs)
  have m: "snd (fl_main ex_loads ex_countries (\<lambda>n. True) ex_now [ [line_us] ])
       = [Put ''track/2023-11-14/21/android.usa.log.gz'' [''USA@2@@d1@@@@@@@@@'' @ newline] True]"
    by (simp add: ex_time ex_loads_simps ex_lines_nonempty cos_defs ex_data_defs
        fl_main_def fl_process_line_def fl_get_uploader_def fl_SIZE_LIMITS_MB_def fl_write_def
        fl_flush_def)
  have r: "oss_log (sync_run (\<lambda>n. True) (BufferedUploader ''android'' ''usa'' (Some 40) ''2023-11-14'' ''21'')
         [Write ''USA@2@@d1@@@@@@@@@'', Write big_field, UploadDone])
       = [Put ''track/2023-11-14/21/android.usa.log.gz'' [''USA@2@@d1@@@@@@@@@'' @ newline] True]"
    by (simp add: sync_run_def sync_step_def sync_write_def sync_submit_upload_def sync_do_upload_def
        put_object_def object_key_def BufferedUploader_def over_limit_def newline_def Let_def
        length_big_field)
  show ?thesis
    using h h2 k t o m r by (simp add: ex_loads_simps ex_lines_nonempty)
qed

text \<open>
  Claim C7 as stated (every uploaded object) fails on \<^verbatim>\<open>online_to_aliyun.py\<close>: it never
  calls a serializer, the payload is the raw input line.
\<close>

theorem C7_online_files_upload_raw_lines:
  "ex_loads line_us = Some (JDict data_us)
   \<and> o1_main ex_loads ex_countries (\<lambda>n. True) ex_now [ [line_us] ]
       = [Put ''tracking-collect-data-test/track/2023-11-14/21/android.usa.log.gz'' [line_us] True]
   \<and> transform_line data_us ''usa'' = ''USA@2@@d1@@@@@@@@@''
   \<and> line_us \<noteq> ''USA@2@@d1@@@@@@@@@''
   \<and> take 6 line_us \<noteq> ''USA@2@''"
proof -
  have a: "o1_main ex_loads ex_countries (\<lambda>n. True) ex_now [ [line_us] ]
       = [Put ''tracking-collect-data-test/track/2023-11-14/21/android.usa.log.gz'' [line_us] True]"
    by (simp add: o1_main_def ex_time ex_lines_nonempty o1_group_def ex_loads_simps o_classify_def
        get_field_def strip_upper_def strip_lower_def str_defs country_2to3_lower_def
        ex_data_defs o1_limit_def o1_SIZE_LIMITS_MB_def sync_SIZE_LIMITS_MB_def o_upload_def
        put_object_def ALI_BUCKET_NAME_def newline_def Let_def ex_lengths)
  have t: "transform_line data_us ''usa'' = ''USA@2@@d1@@@@@@@@@''"
    by (simp add: transform_line_def data_us_def get_field_def py_str_def str_defs)
  have n: "line_us \<noteq> ''USA@2@@d1@@@@@@@@@''" "take 6 line_us \<noteq> ''USA@2@''"
    by (simp_all add: line_us_def)
  show ?thesis using a t n by (simp add: ex_loads_simps)
qed




end
